theory Spec2Isabelle
  imports Main "HOL-Library.Word" "HOL-Library.Log_Nat"
begin

section \<open>Errors (errors.go)\<close>

text \<open>
  The three sentinel errors of the package, errors of the collaborators (operating
  system, capacity probe, cleaning engine, object transport) as \<open>External\<close>, and
  \<open>fmt.Errorf\<close> with a \<open>%w\<close> verb as \<open>Wrapf\<close>: the formatted message and the
  wrapped error.
\<close>

datatype error =
    ErrInvalidConfig
  | ErrBackupFailed
  | ErrCleaningTimeout
  | External string
  | Wrapf string error

fun Error :: "error \<Rightarrow> string" where
  "Error ErrInvalidConfig = ''invalid configuration''"
| "Error ErrBackupFailed = ''backup failed''"
| "Error ErrCleaningTimeout = ''cleaning timeout''"
| "Error (External m) = m"
| "Error (Wrapf m e) = m"

fun errors_Is :: "error \<Rightarrow> error \<Rightarrow> bool" where
  "errors_Is (Wrapf m e) target = (Wrapf m e = target \<or> errors_Is e target)"
| "errors_Is e target = (e = target)"

section \<open>Machine integers\<close>

type_synonym uint64 = "64 word"
type_synonym int64 = "64 word"

section \<open>float64\<close>

text \<open>
  The values of Go's \<open>float64\<close> (IEEE 754 binary64): the finite ones by their exact
  rational value, the two infinities and NaN. The sign of zero and the payload of a NaN
  are not kept.

  \<open>round64\<close> rounds a rational to the nearest \<open>float64\<close>, ties to the even
  significand: 53 significant bits, one unit in the last place being
  \<open>2 powi (e - 52)\<close> for a value in \<open>[2 powi e, 2 powi (e + 1))\<close>, with
  \<open>e\<close> not below \<open>- 1022\<close> (subnormal numbers), and infinity from \<open>2 powi 1024\<close> on.
  \<open>ilog2 x\<close> is that \<open>e\<close> for a positive \<open>x\<close>.
\<close>

datatype float64 = Finite rat | PosInf | NegInf | NaN

definition ilog2 :: "rat \<Rightarrow> int" where
  "ilog2 x =
     (let p = fst (quotient_of x); q = snd (quotient_of x); d = bitlen p - bitlen q
      in if (2 powi d) * of_int q \<le> (of_int p :: rat) then d else d - 1)"

definition round_half_even :: "rat \<Rightarrow> int" where
  "round_half_even x =
     (let f = \<lfloor>x\<rfloor>; r = x - of_int f
      in if r < 1 / 2 then f else if 1 / 2 < r then f + 1 else if even f then f else f + 1)"

definition round64 :: "rat \<Rightarrow> float64" where
  "round64 x =
     (if x = 0 then Finite 0
      else
        let a = \<bar>x\<bar>; e = max (ilog2 a) (- 1022); ulp = 2 powi (e - 52);
            v = of_int (round_half_even (a / ulp)) * ulp
        in if 2 powi 1024 \<le> v then (if 0 < x then PosInf else NegInf)
           else Finite (if 0 < x then v else - v))"

text \<open>
  The conversion \<open>float64(u)\<close> of a \<open>uint64\<close>, the quotient \<open>x / y\<close> and the product
  \<open>x * y\<close> of two \<open>float64\<close>: the exact result, rounded.
\<close>

definition float64_of_uint64 :: "uint64 \<Rightarrow> float64" where
  "float64_of_uint64 u = round64 (of_nat (unat u))"

fun float64_div :: "float64 \<Rightarrow> float64 \<Rightarrow> float64" where
  "float64_div NaN y = NaN"
| "float64_div x NaN = NaN"
| "float64_div (Finite a) (Finite b) =
     (if b = 0 then (if a = 0 then NaN else if 0 < a then PosInf else NegInf)
      else round64 (a / b))"
| "float64_div (Finite a) y = Finite 0"
| "float64_div PosInf (Finite b) = (if 0 \<le> b then PosInf else NegInf)"
| "float64_div NegInf (Finite b) = (if 0 \<le> b then NegInf else PosInf)"
| "float64_div x y = NaN"

fun float64_mul :: "float64 \<Rightarrow> float64 \<Rightarrow> float64" where
  "float64_mul NaN y = NaN"
| "float64_mul x NaN = NaN"
| "float64_mul (Finite a) (Finite b) = round64 (a * b)"
| "float64_mul (Finite a) PosInf = (if a = 0 then NaN else if 0 < a then PosInf else NegInf)"
| "float64_mul (Finite a) NegInf = (if a = 0 then NaN else if 0 < a then NegInf else PosInf)"
| "float64_mul PosInf (Finite b) = (if b = 0 then NaN else if 0 < b then PosInf else NegInf)"
| "float64_mul NegInf (Finite b) = (if b = 0 then NaN else if 0 < b then NegInf else PosInf)"
| "float64_mul PosInf PosInf = PosInf"
| "float64_mul NegInf NegInf = PosInf"
| "float64_mul x y = NegInf"


section \<open>Configuration and session state of the local variant\<close>

text \<open>
  \<open>cleaner.CleaningConfig\<close> belongs to the external cleaning engine. The session reads
  its \<open>MaxUsagePercent\<close> (a \<open>*float64\<close>, \<open>nil\<close> as \<open>None\<close>) and hands the rest through
  untouched (\<open>Passthrough\<close>). The \<open>DiskInfo\<close> provider of the configuration is the
  capacity probe, which the caller supplies: each of its answers is an argument of the
  function that asks.
\<close>

record 'o CleaningConfig =
  MaxUsagePercent :: "float64 option"
  Passthrough :: 'o

record 'o LocalBackupSessionConfig =
  RootDir :: string
  FreeSpaceThreshold :: uint64
  TargetFreeSpace :: uint64
  CheckInterval :: uint64
  CleaningConfig :: "'o CleaningConfig"

record DiskUsage =
  Total :: uint64
  Free :: uint64
  Used :: uint64

text \<open>A \<open>chan struct{}\<close> that is never sent on: only whether it is closed matters.\<close>

datatype chan = Open | Closed

text \<open>Go's \<open>close\<close> panics on a channel that is already closed: \<open>None\<close>.\<close>

definition close_chan :: "chan \<Rightarrow> chan option" where
  "close_chan c = (case c of Open \<Rightarrow> Some Closed | Closed \<Rightarrow> None)"

text \<open>
  \<open>cleaningMutex\<close> is \<open>True\<close> while some goroutine holds the mutex; \<open>wg\<close> is the
  counter of the \<open>sync.WaitGroup\<close>.
\<close>

record 'o LocalBackupSession =
  config :: "'o LocalBackupSessionConfig"
  accumulatedSize :: int64
  cleaningMutex :: bool
  isCleaningActive :: bool
  cleaningDone :: chan
  wg :: int

text \<open>
  Program points of the goroutines that work on a session. A \<open>go\<close> statement of the
  source yields the new goroutine at its first program point; the functions below return
  the goroutines they started.

  \<open>WaitForCompletion\<close> is the same code in both variants: the caller makes the
  channel \<open>done\<close>, starts the waiter and arrives at the \<open>select\<close> (\<open>Wait_Start\<close>, then
  \<open>Wait_Select k\<close> with \<open>k\<close> the channel made); the waiter returns from \<open>wg.Wait()\<close>
  (\<open>Waiter_Wait k\<close>) and closes the channel (\<open>Waiter_Close k\<close>).
\<close>

datatype wait_goroutine =
    Wait_Start
  | Wait_Select nat
  | Wait_Returned "error option"
  | Waiter_Wait nat
  | Waiter_Close nat
  | Waiter_Exited
  | Wait_Panicked

text \<open>
  The goroutines on a local session, each at the statement it executes next.

  A caller of \<open>Save\<close> whose copy has succeeded:
  \<^item> \<open>Save_Accumulate fileSize\<close>: \<open>atomic.AddInt64(&s.accumulatedSize, fileSize)\<close> and
    the comparison with \<open>CheckInterval\<close>;
  \<^item> \<open>Check_Fast\<close>: the first \<open>isCleaningActive.Load()\<close> of \<open>checkAndCleanIfNeeded\<close>;
  \<^item> \<open>Check_Lock\<close>: \<open>cleaningMutex.Lock()\<close>;
  \<^item> \<open>Check_Again\<close>: the second \<open>isCleaningActive.Load()\<close>;
  \<^item> \<open>Check_Probe\<close>: \<open>GetDiskUsage\<close> and the comparison with \<open>FreeSpaceThreshold\<close>;
  \<^item> \<open>Check_Store\<close>: \<open>isCleaningActive.Store(true)\<close>;
  \<^item> \<open>Check_Add\<close>: \<open>wg.Add(1)\<close>;
  \<^item> \<open>Check_Go\<close>: the \<open>go\<close> statement;
  \<^item> \<open>Check_Unlock\<close>: the deferred \<open>cleaningMutex.Unlock()\<close>;
  \<^item> \<open>Save_Returned\<close>: \<open>Save\<close> has returned \<open>nil\<close>.

  A cleanup pass, that is the goroutine \<open>defer wg.Done(); performCleaning()\<close>:
  \<^item> \<open>Pass_Probe\<close>: \<open>GetDiskUsage\<close>;
  \<^item> \<open>Pass_Engine diskInfo\<close>: the target computation and \<open>cleaner.CleanBackup\<close>;
  \<^item> \<open>Pass_Idle\<close>: the deferred \<open>isCleaningActive.Store(false)\<close>;
  \<^item> \<open>Pass_Reset\<close>: the deferred \<open>atomic.StoreInt64(&s.accumulatedSize, 0)\<close>;
  \<^item> \<open>Pass_Done\<close>: the deferred \<open>wg.Done()\<close>;
  \<^item> \<open>Pass_Exited\<close>: the goroutine has ended.

  A call of \<open>WaitForCompletion\<close> (\<open>Waiting\<close>), and a goroutine that has panicked.
\<close>

datatype goroutine =
    Save_Accumulate int64
  | Check_Fast
  | Check_Lock
  | Check_Again
  | Check_Probe
  | Check_Store
  | Check_Add
  | Check_Go
  | Check_Unlock
  | Save_Returned
  | Pass_Probe
  | Pass_Engine DiskUsage
  | Pass_Idle
  | Pass_Reset
  | Pass_Done
  | Pass_Exited
  | Waiting wait_goroutine
  | Panicked

section \<open>Construction\<close>

definition validateLocalConfig :: "'o LocalBackupSessionConfig \<Rightarrow> error option" where
  "validateLocalConfig c =
     (if RootDir c = [] then
        Some (Wrapf (Error ErrInvalidConfig @ '': root directory is required'') ErrInvalidConfig)
      else if FreeSpaceThreshold c \<le> 0 then
        Some (Wrapf (Error ErrInvalidConfig @ '': free space threshold must be positive'')
                ErrInvalidConfig)
      else if TargetFreeSpace c \<le> 0 then
        Some (Wrapf (Error ErrInvalidConfig @ '': target free space must be positive'')
                ErrInvalidConfig)
      else if TargetFreeSpace c \<le> FreeSpaceThreshold c then
        Some (Wrapf (Error ErrInvalidConfig @ '': target free space must be greater than threshold'')
                ErrInvalidConfig)
      else None)"

text \<open>
  \<open>NewLocalBackupSession mkdirAll getDiskUsage config\<close>: \<open>mkdirAll\<close> is the result of
  \<open>os.MkdirAll\<close> on the root (\<open>None\<close> for \<open>nil\<close>), \<open>getDiskUsage\<close> the answer of the
  capacity probe. The result is the error, or the session and the goroutines started.
\<close>

definition NewLocalBackupSession ::
  "error option \<Rightarrow> error + DiskUsage \<Rightarrow> 'o LocalBackupSessionConfig \<Rightarrow>
     error + ('o LocalBackupSession \<times> goroutine list)" where
  "NewLocalBackupSession mkdirAll getDiskUsage config0 =
     (case validateLocalConfig config0 of
        Some err \<Rightarrow> Inl (Wrapf (''invalid config: '' @ Error err) err)
      | None \<Rightarrow>
          let cfg = (if CheckInterval config0 = 0
                     then config0\<lparr>CheckInterval := 1024 * 1024 * 1024\<rparr> else config0);
              session = \<lparr>config = cfg, accumulatedSize = 0, cleaningMutex = False,
                         isCleaningActive = False, cleaningDone = Open, wg = 0\<rparr>
          in (case mkdirAll of
                Some err \<Rightarrow> Inl (Wrapf (''failed to create root directory: '' @ Error err) err)
              | None \<Rightarrow>
                  (case getDiskUsage of
                     Inl err \<Rightarrow> Inl (Wrapf (''failed to get disk usage: '' @ Error err) err)
                   | Inr diskInfo \<Rightarrow>
                       if Free diskInfo < FreeSpaceThreshold cfg then
                         Inr (session\<lparr>isCleaningActive := True, wg := wg session + 1\<rparr>,
                              [Pass_Probe])
                       else Inr (session, []))))"

section \<open>Close\<close>

text \<open>
  \<open>Close\<close> returns \<open>None\<close> when it panics, and otherwise its return value
  (\<open>nil\<close>) and the session.
\<close>

definition Close ::
  "'o LocalBackupSession \<Rightarrow> (error option \<times> 'o LocalBackupSession) option" where
  "Close s =
     (case close_chan (cleaningDone s) of
        None \<Rightarrow> None
      | Some c \<Rightarrow> Some (None, s\<lparr>cleaningDone := c\<rparr>))"

section \<open>The capacity check and the cleanup pass\<close>

text \<open>
  \<open>checkAndCleanIfNeeded getDiskUsage s\<close>, run without interruption. \<open>Lock\<close> waits
  while another goroutine holds the mutex: the result is \<open>None\<close> then. Otherwise it is
  the session after the deferred \<open>Unlock\<close> and the goroutines started.
\<close>

definition checkAndCleanIfNeeded ::
  "error + DiskUsage \<Rightarrow> 'o LocalBackupSession \<Rightarrow>
     ('o LocalBackupSession \<times> goroutine list) option" where
  "checkAndCleanIfNeeded getDiskUsage s =
     (if isCleaningActive s then Some (s, [])
      else if cleaningMutex s then None
      else
        let s1 = s\<lparr>cleaningMutex := True\<rparr> in
        if isCleaningActive s1 then Some (s1\<lparr>cleaningMutex := False\<rparr>, [])
        else
          (case getDiskUsage of
             Inl err \<Rightarrow> Some (s1\<lparr>cleaningMutex := False\<rparr>, [])
           | Inr diskInfo \<Rightarrow>
               if Free diskInfo < FreeSpaceThreshold (config s1) then
                 Some (s1\<lparr>isCleaningActive := True, wg := wg s1 + 1, cleaningMutex := False\<rparr>,
                       [Pass_Probe])
               else Some (s1\<lparr>cleaningMutex := False\<rparr>, [])))"

text \<open>
  \<open>performCleaning getDiskUsage cleanBackup s\<close>, run without interruption.
  \<open>cleanBackup\<close> is the error of \<open>cleaner.CleanBackup\<close> (\<open>None\<close> for \<open>nil\<close>). The
  result is the session after the deferred function and the calls of the engine that
  were made, each with its root and its configuration.
\<close>

definition performCleaning ::
  "error + DiskUsage \<Rightarrow> error option \<Rightarrow> 'o LocalBackupSession \<Rightarrow>
     'o LocalBackupSession \<times> (string \<times> 'o CleaningConfig) list" where
  "performCleaning getDiskUsage cleanBackup s =
     (let deferred = (\<lambda>t. (t\<lparr>isCleaningActive := False\<rparr>)\<lparr>accumulatedSize := 0\<rparr>);
          cfg = CleaningConfig (config s)
      in (case getDiskUsage of
            Inl err \<Rightarrow> (deferred s, [])
          | Inr diskInfo \<Rightarrow>
              let targetUsedSpace =
                    (if TargetFreeSpace (config s) < Total diskInfo
                     then Total diskInfo - TargetFreeSpace (config s) else 0);
                  targetUsagePercent =
                    float64_mul
                      (float64_div (float64_of_uint64 targetUsedSpace)
                         (float64_of_uint64 (Total diskInfo)))
                      (Finite 100);
                  cfg' = (if MaxUsagePercent cfg = None
                          then cfg\<lparr>MaxUsagePercent := Some targetUsagePercent\<rparr> else cfg)
              in (case cleanBackup of
                    Some err \<Rightarrow> (deferred s, [(RootDir (config s), cfg')])
                  | None \<Rightarrow> (deferred s, [(RootDir (config s), cfg')]))))"

section \<open>Save of the local variant\<close>

text \<open>
  The file system is a map from path names to files; directories are not modelled.
  What the operating system can refuse for reasons outside the session is given by
  \<open>syscalls\<close>: for each call site of \<open>Save\<close>, \<open>copyFile\<close> and \<open>uploadFile\<close> the error
  the call fails with (\<open>None\<close>: the call does its work), and for \<open>io.Copy\<close> also the
  number of bytes written before the failure. The path functions of \<open>path/filepath\<close> are
  fields of \<open>syscalls\<close> as well.
\<close>

record fileinfo =
  regular :: bool
  mode :: "32 word"
  content :: "8 word list"

type_synonym filesystem = "string \<Rightarrow> fileinfo option"

record syscalls =
  filepath_Join :: "string \<Rightarrow> string \<Rightarrow> string"
  filepath_Dir :: "string \<Rightarrow> string"
  filepath_ToSlash :: "string \<Rightarrow> string"
  umask :: "32 word"
  stat_fails :: "error option"
  mkdirAll_fails :: "error option"
  open_fails :: "error option"
  create_fails :: "error option"
  copy_fails :: "(nat \<times> error) option"
  restat_fails :: "error option"
  chmod_fails :: "error option"
  sync_fails :: "error option"
  remove_fails :: "error option"

definition os_Stat :: "error option \<Rightarrow> filesystem \<Rightarrow> string \<Rightarrow> error + fileinfo" where
  "os_Stat fault fs name =
     (case fault of
        Some e \<Rightarrow> Inl e
      | None \<Rightarrow>
          (case fs name of
             None \<Rightarrow> Inl (External ''no such file or directory'')
           | Some f \<Rightarrow> Inr f))"

text \<open>\<open>os.Open\<close>: the handle is the path name of the file that was opened.\<close>

definition os_Open :: "error option \<Rightarrow> filesystem \<Rightarrow> string \<Rightarrow> error + string" where
  "os_Open fault fs name =
     (case fault of
        Some e \<Rightarrow> Inl e
      | None \<Rightarrow>
          (case fs name of
             None \<Rightarrow> Inl (External ''no such file or directory'')
           | Some f \<Rightarrow> Inr name))"

text \<open>\<open>os.Create\<close>: a new file with mode 0666 before umask, an existing one truncated.\<close>

definition os_Create ::
  "error option \<Rightarrow> 32 word \<Rightarrow> filesystem \<Rightarrow> string \<Rightarrow> error + filesystem" where
  "os_Create fault um fs name =
     (case fault of
        Some e \<Rightarrow> Inl e
      | None \<Rightarrow>
          Inr (fs(name \<mapsto>
                 (case fs name of
                    None \<Rightarrow> \<lparr>regular = True, mode = and 438 (not um), content = []\<rparr>
                  | Some f \<Rightarrow> f\<lparr>content := []\<rparr>))))"

text \<open>
  \<open>io.Copy\<close> from the open source to the open, empty destination: all bytes, or the
  first \<open>n\<close> of them and an error.
\<close>

definition io_Copy ::
  "(nat \<times> error) option \<Rightarrow> filesystem \<Rightarrow> string \<Rightarrow> string \<Rightarrow> error option \<times> filesystem" where
  "io_Copy fault fs dst src =
     (let bytes = (case fs src of None \<Rightarrow> [] | Some f \<Rightarrow> content f);
          written = (\<lambda>n. case fs dst of
                             None \<Rightarrow> fs
                           | Some d \<Rightarrow> fs(dst \<mapsto> d\<lparr>content := take n bytes\<rparr>))
      in case fault of
           Some (n, e) \<Rightarrow> (Some e, written n)
         | None \<Rightarrow> (None, written (length bytes)))"

definition os_Remove :: "error option \<Rightarrow> filesystem \<Rightarrow> string \<Rightarrow> error option \<times> filesystem" where
  "os_Remove fault fs name =
     (case fault of
        Some e \<Rightarrow> (Some e, fs)
      | None \<Rightarrow>
          (case fs name of
             None \<Rightarrow> (Some (External ''no such file or directory''), fs)
           | Some f \<Rightarrow> (None, fs(name := None))))"

definition File_Chmod ::
  "error option \<Rightarrow> filesystem \<Rightarrow> string \<Rightarrow> 32 word \<Rightarrow> error + filesystem" where
  "File_Chmod fault fs name m =
     (case fault of
        Some e \<Rightarrow> Inl e
      | None \<Rightarrow>
          (case fs name of
             None \<Rightarrow> Inr fs
           | Some f \<Rightarrow> Inr (fs(name \<mapsto> f\<lparr>mode := m\<rparr>))))"

text \<open>
  \<open>copyFile sys src dst fs\<close>: the returned error and the file system afterwards. The
  two deferred \<open>Close\<close> calls discard their results and leave the files as they are.
\<close>

definition copyFile ::
  "syscalls \<Rightarrow> string \<Rightarrow> string \<Rightarrow> filesystem \<Rightarrow> error option \<times> filesystem" where
  "copyFile sys src dst fs =
     (case os_Open (open_fails sys) fs src of
        Inl err \<Rightarrow> (Some (Wrapf (''failed to open source file: '' @ Error err) err), fs)
      | Inr sourceFile \<Rightarrow>
          (case os_Create (create_fails sys) (umask sys) fs dst of
             Inl err \<Rightarrow>
               (Some (Wrapf (''failed to create destination file: '' @ Error err) err), fs)
           | Inr fs1 \<Rightarrow>
               (case io_Copy (copy_fails sys) fs1 dst sourceFile of
                  (Some err, fs2) \<Rightarrow>
                    (Some (Wrapf (''failed to copy file: '' @ Error err) err),
                     snd (os_Remove (remove_fails sys) fs2 dst))
                | (None, fs2) \<Rightarrow>
                    (case os_Stat (restat_fails sys) fs2 src of
                       Inl err \<Rightarrow>
                         (Some (Wrapf (''failed to stat source file: '' @ Error err) err), fs2)
                     | Inr srcInfo \<Rightarrow>
                         (case File_Chmod (chmod_fails sys) fs2 dst (mode srcInfo) of
                            Inl err \<Rightarrow>
                              (Some (Wrapf (''failed to set file permissions: '' @ Error err) err),
                               fs2)
                          | Inr fs3 \<Rightarrow> (sync_fails sys, fs3))))))"

text \<open>
  \<open>Save sys getDiskUsage localFilePath relativePath (s, fs)\<close>, run without
  interruption: \<open>None\<close> when the capacity check has to wait for the mutex, otherwise the
  returned error (\<open>None\<close> for \<open>nil\<close>), the session, the file system and the goroutines
  started. \<open>srcInfo.Size()\<close> is the length of the file as an \<open>int64\<close>; the comparison
  with \<open>int64(CheckInterval)\<close> is signed.
\<close>

definition Save ::
  "syscalls \<Rightarrow> error + DiskUsage \<Rightarrow> string \<Rightarrow> string \<Rightarrow>
     'o LocalBackupSession \<times> filesystem \<Rightarrow>
     (error option \<times> 'o LocalBackupSession \<times> filesystem \<times> goroutine list) option" where
  "Save sys getDiskUsage localFilePath relativePath w =
     (let s = fst w; fs = snd w in
      if localFilePath = [] \<or> relativePath = [] then
        Some (Some (Wrapf (Error ErrInvalidConfig @ '': empty file path'') ErrInvalidConfig),
              s, fs, [])
      else
        (case os_Stat (stat_fails sys) fs localFilePath of
           Inl err \<Rightarrow>
             Some (Some (Wrapf (''failed to stat source file: '' @ Error err) err), s, fs, [])
         | Inr srcInfo \<Rightarrow>
             if \<not> regular srcInfo then
               Some (Some (Wrapf (Error ErrInvalidConfig @ '': source is not a regular file'')
                             ErrInvalidConfig), s, fs, [])
             else
               let destPath = filepath_Join sys (RootDir (config s)) relativePath;
                   destDir = filepath_Dir sys destPath
               in (case mkdirAll_fails sys of
                     Some err \<Rightarrow>
                       Some (Some (Wrapf (''failed to create destination directory: '' @ Error err)
                                     err), s, fs, [])
                   | None \<Rightarrow>
                       (case copyFile sys localFilePath destPath fs of
                          (Some err, fs') \<Rightarrow>
                            Some (Some (Wrapf (Error ErrBackupFailed @ '': '' @ Error err)
                                          ErrBackupFailed), s, fs', [])
                        | (None, fs') \<Rightarrow>
                            let fileSize = (of_nat (length (content srcInfo)) :: int64);
                                newAccumulatedSize = accumulatedSize s + fileSize;
                                s1 = s\<lparr>accumulatedSize := newAccumulatedSize\<rparr>
                            in if word_sle (CheckInterval (config s1)) newAccumulatedSize then
                                 map_option (\<lambda>(s2, gs). (None, s2, fs', gs))
                                   (checkAndCleanIfNeeded getDiskUsage s1)
                               else Some (None, s1, fs', [])))))"

section \<open>The remote (S3) variant\<close>

record S3BackupSessionConfig =
  Region :: string
  AccessKeyID :: string
  SecretAccessKey :: string
  SessionToken :: string
  Bucket :: string
  Prefix :: string
  Endpoint :: string
  ACL :: string

text \<open>
  The client of the session is the object transport: each answer of \<open>PutObject\<close> is an
  argument of the function that calls it.
\<close>

record S3BackupSession =
  s3_config :: S3BackupSessionConfig
  s3_wg :: int

record PutObjectInput =
  put_Bucket :: string
  put_Key :: string
  put_Body :: "8 word list"
  put_ContentLength :: int64
  put_ACL :: "string option"

text \<open>
  Goroutines on a remote session: a caller of \<open>Save\<close> (\<open>S3Save_Call\<close>, then
  \<open>S3Save_Returned\<close> with the value returned), an upload, that is the goroutine
  \<open>defer wg.Done(); _ = uploadFile(...)\<close> (\<open>Upload_...\<close>), and a call of
  \<open>WaitForCompletion\<close>.
\<close>

datatype s3_goroutine =
    S3Save_Call string string
  | S3Save_Returned "error option"
  | Upload_Run string string int64
  | Upload_Done
  | Upload_Exited
  | S3Waiting wait_goroutine
  | S3Panicked

definition Save_s3 ::
  "syscalls \<Rightarrow> filesystem \<Rightarrow> string \<Rightarrow> string \<Rightarrow> S3BackupSession \<Rightarrow>
     error option \<times> S3BackupSession \<times> s3_goroutine list" where
  "Save_s3 sys fs localFilePath relativePath s =
     (if localFilePath = [] \<or> relativePath = [] then
        (Some (Wrapf (Error ErrInvalidConfig @ '': empty file path'') ErrInvalidConfig), s, [])
      else
        (case os_Stat (stat_fails sys) fs localFilePath of
           Inl err \<Rightarrow> (Some (Wrapf (''failed to stat file: '' @ Error err) err), s, [])
         | Inr fileInfo \<Rightarrow>
             if \<not> regular fileInfo then
               (Some (Wrapf (Error ErrInvalidConfig @ '': source is not a regular file'')
                        ErrInvalidConfig), s, [])
             else
               let key = filepath_ToSlash sys
                           (filepath_Join sys (Prefix (s3_config s)) relativePath)
               in (None, s\<lparr>s3_wg := s3_wg s + 1\<rparr>,
                   [Upload_Run localFilePath key (of_nat (length (content fileInfo)))])))"

text \<open>
  \<open>uploadFile sys putObject fs s filePath key sz\<close>: \<open>putObject\<close> is the error of the
  transport's \<open>PutObject\<close>. The result is the returned error and the request that was
  sent, if one was.
\<close>

definition uploadFile ::
  "syscalls \<Rightarrow> error option \<Rightarrow> filesystem \<Rightarrow> S3BackupSession \<Rightarrow> string \<Rightarrow> string \<Rightarrow> int64 \<Rightarrow>
     error option \<times> PutObjectInput option" where
  "uploadFile sys putObject fs s filePath key sz =
     (case os_Open (open_fails sys) fs filePath of
        Inl err \<Rightarrow> (Some (Wrapf (''failed to open file: '' @ Error err) err), None)
      | Inr opened \<Rightarrow>
          let input0 = \<lparr>put_Bucket = Bucket (s3_config s), put_Key = key,
                        put_Body = (case fs opened of None \<Rightarrow> [] | Some f \<Rightarrow> content f),
                        put_ContentLength = sz, put_ACL = None\<rparr>;
              input = (if ACL (s3_config s) \<noteq> [] then input0\<lparr>put_ACL := Some (ACL (s3_config s))\<rparr>
                       else input0)
          in (case putObject of
                Some err \<Rightarrow>
                  (Some (Wrapf (Error ErrBackupFailed @ '': failed to upload to S3: '' @ Error err)
                           ErrBackupFailed), Some input)
              | None \<Rightarrow> (None, Some input)))"

section \<open>WaitForCompletion\<close>

text \<open>
  One step of a goroutine of \<open>WaitForCompletion\<close>. \<open>timeout\<close> builds the returned
  error from \<open>ctx.Err()\<close>; \<open>ctx_err\<close> is \<open>ctx.Err()\<close> at this moment (\<open>None\<close> while the
  context is not done); \<open>prefer_ctx\<close> is the choice of \<open>select\<close> when both cases are
  ready; \<open>n\<close> is the counter of the wait group; \<open>cs\<close> are the \<open>done\<close> channels made so
  far. \<open>None\<close>: the goroutine cannot move (it waits, or it has ended).
\<close>

fun wait_step ::
  "(error \<Rightarrow> error) \<Rightarrow> error option \<Rightarrow> bool \<Rightarrow> int \<Rightarrow> chan list \<Rightarrow> wait_goroutine \<Rightarrow>
     (chan list \<times> wait_goroutine \<times> wait_goroutine list) option" where
  "wait_step timeout ctx_err prefer_ctx n cs Wait_Start =
     Some (cs @ [Open], Wait_Select (length cs), [Waiter_Wait (length cs)])"
| "wait_step timeout ctx_err prefer_ctx n cs (Waiter_Wait k) =
     (if n = 0 then Some (cs, Waiter_Close k, []) else None)"
| "wait_step timeout ctx_err prefer_ctx n cs (Waiter_Close k) =
     (if k < length cs then
        (case close_chan (cs ! k) of
           None \<Rightarrow> Some (cs, Wait_Panicked, [])
         | Some c \<Rightarrow> Some (cs[k := c], Waiter_Exited, []))
      else Some (cs, Wait_Panicked, []))"
| "wait_step timeout ctx_err prefer_ctx n cs (Wait_Select k) =
     (let done_ready = (k < length cs \<and> cs ! k = Closed) in
      case ctx_err of
        Some e \<Rightarrow>
          if done_ready \<and> \<not> prefer_ctx then Some (cs, Wait_Returned None, [])
          else Some (cs, Wait_Returned (Some (timeout e)), [])
      | None \<Rightarrow>
          if done_ready then Some (cs, Wait_Returned None, []) else None)"
| "wait_step timeout ctx_err prefer_ctx n cs (Wait_Returned r) = None"
| "wait_step timeout ctx_err prefer_ctx n cs Waiter_Exited = None"
| "wait_step timeout ctx_err prefer_ctx n cs Wait_Panicked = None"

definition local_timeout :: "error \<Rightarrow> error" where
  "local_timeout e = Wrapf (Error ErrCleaningTimeout @ '': '' @ Error e) ErrCleaningTimeout"

definition s3_timeout :: "error \<Rightarrow> error" where
  "s3_timeout e = Wrapf (''upload timeout: '' @ Error e) e"

section \<open>Concurrent goroutines on a local session\<close>

text \<open>
  An event schedules one goroutine (\<open>ev_tid\<close>, its index) for one step and carries what
  the collaborators answer if that step asks them: the capacity probe, the cleaning
  engine, the context of \<open>WaitForCompletion\<close>.
\<close>

record event =
  ev_tid :: nat
  ev_probe :: "error + DiskUsage"
  ev_engine :: "error option"
  ev_ctx_err :: "error option"
  ev_prefer_ctx :: bool

text \<open>
  \<open>step ev s cs g\<close>: the session, the \<open>done\<close> channels, the goroutine's next program
  point and the goroutines it started; \<open>None\<close> when \<open>g\<close> cannot move. Statements that
  touch only locals are part of the step of the next access to the session.
\<close>

fun step ::
  "event \<Rightarrow> 'o LocalBackupSession \<Rightarrow> chan list \<Rightarrow> goroutine \<Rightarrow>
     ('o LocalBackupSession \<times> chan list \<times> goroutine \<times> goroutine list) option" where
  "step ev s cs (Save_Accumulate fileSize) =
     (let newAccumulatedSize = accumulatedSize s + fileSize;
          s1 = s\<lparr>accumulatedSize := newAccumulatedSize\<rparr>
      in Some (s1, cs,
               if word_sle (CheckInterval (config s1)) newAccumulatedSize then Check_Fast
               else Save_Returned, []))"
| "step ev s cs Check_Fast =
     Some (s, cs, if isCleaningActive s then Save_Returned else Check_Lock, [])"
| "step ev s cs Check_Lock =
     (if cleaningMutex s then None else Some (s\<lparr>cleaningMutex := True\<rparr>, cs, Check_Again, []))"
| "step ev s cs Check_Again =
     Some (s, cs, if isCleaningActive s then Check_Unlock else Check_Probe, [])"
| "step ev s cs Check_Probe =
     (case ev_probe ev of
        Inl err \<Rightarrow> Some (s, cs, Check_Unlock, [])
      | Inr diskInfo \<Rightarrow>
          Some (s, cs,
                if Free diskInfo < FreeSpaceThreshold (config s) then Check_Store
                else Check_Unlock, []))"
| "step ev s cs Check_Store = Some (s\<lparr>isCleaningActive := True\<rparr>, cs, Check_Add, [])"
| "step ev s cs Check_Add = Some (s\<lparr>wg := wg s + 1\<rparr>, cs, Check_Go, [])"
| "step ev s cs Check_Go = Some (s, cs, Check_Unlock, [Pass_Probe])"
| "step ev s cs Check_Unlock =
     (if cleaningMutex s then Some (s\<lparr>cleaningMutex := False\<rparr>, cs, Save_Returned, [])
      else Some (s, cs, Panicked, []))"
| "step ev s cs Save_Returned = None"
| "step ev s cs Pass_Probe =
     (case ev_probe ev of
        Inl err \<Rightarrow> Some (s, cs, Pass_Idle, [])
      | Inr diskInfo \<Rightarrow> Some (s, cs, Pass_Engine diskInfo, []))"
| "step ev s cs (Pass_Engine diskInfo) =
     (case ev_engine ev of
        Some err \<Rightarrow> Some (s, cs, Pass_Idle, [])
      | None \<Rightarrow> Some (s, cs, Pass_Idle, []))"
| "step ev s cs Pass_Idle = Some (s\<lparr>isCleaningActive := False\<rparr>, cs, Pass_Reset, [])"
| "step ev s cs Pass_Reset = Some (s\<lparr>accumulatedSize := 0\<rparr>, cs, Pass_Done, [])"
| "step ev s cs Pass_Done =
     (if wg s - 1 < 0 then Some (s, cs, Panicked, [])
      else Some (s\<lparr>wg := wg s - 1\<rparr>, cs, Pass_Exited, []))"
| "step ev s cs Pass_Exited = None"
| "step ev s cs (Waiting g) =
     map_option (\<lambda>(cs', g', new). (s, cs', Waiting g', map Waiting new))
       (wait_step local_timeout (ev_ctx_err ev) (ev_prefer_ctx ev) (wg s) cs g)"
| "step ev s cs Panicked = None"

record 'o world =
  session :: "'o LocalBackupSession"
  goroutines :: "goroutine list"
  done_chans :: "chan list"

text \<open>An event for a goroutine that cannot move, or for none, leaves the world as it is.\<close>

definition world_step :: "event \<Rightarrow> 'o world \<Rightarrow> 'o world" where
  "world_step ev w =
     (if ev_tid ev < length (goroutines w) then
        (case step ev (session w) (done_chans w) (goroutines w ! ev_tid ev) of
           None \<Rightarrow> w
         | Some (s', cs', g', new) \<Rightarrow>
             \<lparr>session = s', goroutines = (goroutines w)[ev_tid ev := g'] @ new,
              done_chans = cs'\<rparr>)
      else w)"

definition run :: "event list \<Rightarrow> 'o world \<Rightarrow> 'o world" where
  "run evs w = fold world_step evs w"

text \<open>
  The calls a user of the session makes are goroutines at the entry of \<open>Save\<close> (after a
  copy that succeeded: a \<open>Save\<close> that fails returns before it touches the session) or
  of \<open>WaitForCompletion\<close>. A call that is made later is a goroutine that is scheduled
  later.
\<close>

fun caller :: "goroutine \<Rightarrow> bool" where
  "caller (Save_Accumulate fileSize) = True"
| "caller (Waiting Wait_Start) = True"
| "caller g = False"

definition start_world ::
  "'o LocalBackupSession \<times> goroutine list \<Rightarrow> goroutine list \<Rightarrow> 'o world" where
  "start_world constructed callers =
     \<lparr>session = fst constructed, goroutines = snd constructed @ callers, done_chans = []\<rparr>"

text \<open>
  A cleanup pass is in the Active state from its start until it has stored \<open>false\<close>
  into \<open>isCleaningActive\<close>. A caller that has stored \<open>true\<close> is about to start one.
\<close>

fun active_pass :: "goroutine \<Rightarrow> bool" where
  "active_pass Pass_Probe = True"
| "active_pass (Pass_Engine diskInfo) = True"
| "active_pass Pass_Idle = True"
| "active_pass g = False"

fun dispatching :: "goroutine \<Rightarrow> bool" where
  "dispatching Check_Add = True"
| "dispatching Check_Go = True"
| "dispatching g = False"

fun in_critical :: "goroutine \<Rightarrow> bool" where
  "in_critical Check_Again = True"
| "in_critical Check_Probe = True"
| "in_critical Check_Store = True"
| "in_critical Check_Add = True"
| "in_critical Check_Go = True"
| "in_critical Check_Unlock = True"
| "in_critical g = False"

fun decided :: "goroutine \<Rightarrow> bool" where
  "decided Check_Probe = True"
| "decided Check_Store = True"
| "decided g = False"

text \<open>The goroutines the wait group counts: added and not yet done.\<close>

fun registered :: "goroutine \<Rightarrow> bool" where
  "registered Check_Go = True"
| "registered Pass_Probe = True"
| "registered (Pass_Engine diskInfo) = True"
| "registered Pass_Idle = True"
| "registered Pass_Reset = True"
| "registered Pass_Done = True"
| "registered g = False"

text \<open>A cleanup pass that has not yet called \<open>wg.Done()\<close>.\<close>

fun unfinished_pass :: "goroutine \<Rightarrow> bool" where
  "unfinished_pass Pass_Probe = True"
| "unfinished_pass (Pass_Engine diskInfo) = True"
| "unfinished_pass Pass_Idle = True"
| "unfinished_pass Pass_Reset = True"
| "unfinished_pass Pass_Done = True"
| "unfinished_pass g = False"

text \<open>
  How many steps of its own a caller inside the locked part of the capacity check
  needs at most until it has unlocked the mutex.
\<close>

fun steps_to_unlock :: "goroutine \<Rightarrow> nat" where
  "steps_to_unlock Check_Again = 6"
| "steps_to_unlock Check_Probe = 5"
| "steps_to_unlock Check_Store = 4"
| "steps_to_unlock Check_Add = 3"
| "steps_to_unlock Check_Go = 2"
| "steps_to_unlock Check_Unlock = 1"
| "steps_to_unlock g = 0"

text \<open>
  The program points of a caller of \<open>Save\<close>, and how many steps of its own it needs at
  most until it has returned. Such a caller is unhindered when the mutex is held by
  itself or by nobody.
\<close>

fun save_caller :: "goroutine \<Rightarrow> bool" where
  "save_caller (Save_Accumulate fileSize) = True"
| "save_caller Check_Fast = True"
| "save_caller Check_Lock = True"
| "save_caller Check_Again = True"
| "save_caller Check_Probe = True"
| "save_caller Check_Store = True"
| "save_caller Check_Add = True"
| "save_caller Check_Go = True"
| "save_caller Check_Unlock = True"
| "save_caller Save_Returned = True"
| "save_caller g = False"

fun steps_to_return :: "goroutine \<Rightarrow> nat" where
  "steps_to_return (Save_Accumulate fileSize) = 9"
| "steps_to_return Check_Fast = 8"
| "steps_to_return Check_Lock = 7"
| "steps_to_return Check_Again = 6"
| "steps_to_return Check_Probe = 5"
| "steps_to_return Check_Store = 4"
| "steps_to_return Check_Add = 3"
| "steps_to_return Check_Go = 2"
| "steps_to_return Check_Unlock = 1"
| "steps_to_return g = 0"

definition count_where :: "('a \<Rightarrow> bool) \<Rightarrow> 'a list \<Rightarrow> nat" where
  "count_where P gs = length (filter P gs)"

section \<open>Concurrent goroutines on a remote session\<close>

text \<open>
  An event schedules one goroutine for one step and carries the environment of that
  step: the operating system's answers and the file system as it is then, the answer of
  the transport's \<open>PutObject\<close>, the context of \<open>WaitForCompletion\<close>.
\<close>

record s3_event =
  s3_tid :: nat
  s3_sys :: syscalls
  s3_fs :: filesystem
  s3_put :: "error option"
  s3_ctx_err :: "error option"
  s3_prefer_ctx :: bool

text \<open>
  \<open>s3_step ev s cs g\<close>: the session, the \<open>done\<close> channels, the requests sent to the
  transport in this step, the goroutine's next program point and the goroutines it
  started. \<open>Save\<close> touches the session once (\<open>wg.Add(1)\<close>), so a call is one step. The
  upload goroutine discards what \<open>uploadFile\<close> returns.
\<close>

fun s3_step ::
  "s3_event \<Rightarrow> S3BackupSession \<Rightarrow> chan list \<Rightarrow> s3_goroutine \<Rightarrow>
     (S3BackupSession \<times> chan list \<times> PutObjectInput list \<times> s3_goroutine \<times> s3_goroutine list)
       option" where
  "s3_step ev s cs (S3Save_Call localFilePath relativePath) =
     (case Save_s3 (s3_sys ev) (s3_fs ev) localFilePath relativePath s of
        (r, s', new) \<Rightarrow> Some (s', cs, [], S3Save_Returned r, new))"
| "s3_step ev s cs (S3Save_Returned r) = None"
| "s3_step ev s cs (Upload_Run filePath key sz) =
     (case uploadFile (s3_sys ev) (s3_put ev) (s3_fs ev) s filePath key sz of
        (err, sent) \<Rightarrow>
          Some (s, cs, (case sent of None \<Rightarrow> [] | Some input \<Rightarrow> [input]), Upload_Done, []))"
| "s3_step ev s cs Upload_Done =
     (if s3_wg s - 1 < 0 then Some (s, cs, [], S3Panicked, [])
      else Some (s\<lparr>s3_wg := s3_wg s - 1\<rparr>, cs, [], Upload_Exited, []))"
| "s3_step ev s cs Upload_Exited = None"
| "s3_step ev s cs (S3Waiting g) =
     map_option (\<lambda>(cs', g', new). (s, cs', [], S3Waiting g', map S3Waiting new))
       (wait_step s3_timeout (s3_ctx_err ev) (s3_prefer_ctx ev) (s3_wg s) cs g)"
| "s3_step ev s cs S3Panicked = None"

record s3_world =
  s3_session :: S3BackupSession
  s3_goroutines :: "s3_goroutine list"
  s3_done_chans :: "chan list"
  s3_requests :: "PutObjectInput list"

definition s3_world_step :: "s3_event \<Rightarrow> s3_world \<Rightarrow> s3_world" where
  "s3_world_step ev w =
     (if s3_tid ev < length (s3_goroutines w) then
        (case s3_step ev (s3_session w) (s3_done_chans w) (s3_goroutines w ! s3_tid ev) of
           None \<Rightarrow> w
         | Some (s', cs', sent, g', new) \<Rightarrow>
             \<lparr>s3_session = s', s3_goroutines = (s3_goroutines w)[s3_tid ev := g'] @ new,
              s3_done_chans = cs', s3_requests = s3_requests w @ sent\<rparr>)
      else w)"

definition s3_run :: "s3_event list \<Rightarrow> s3_world \<Rightarrow> s3_world" where
  "s3_run evs w = fold s3_world_step evs w"

fun s3_caller :: "s3_goroutine \<Rightarrow> bool" where
  "s3_caller (S3Save_Call localFilePath relativePath) = True"
| "s3_caller (S3Waiting Wait_Start) = True"
| "s3_caller g = False"

definition s3_start_world :: "S3BackupSession \<Rightarrow> s3_goroutine list \<Rightarrow> s3_world" where
  "s3_start_world s callers =
     \<lparr>s3_session = s, s3_goroutines = callers, s3_done_chans = [], s3_requests = []\<rparr>"

text \<open>The uploads the wait group counts: started and not yet done.\<close>

fun s3_registered :: "s3_goroutine \<Rightarrow> bool" where
  "s3_registered (Upload_Run filePath key sz) = True"
| "s3_registered Upload_Done = True"
| "s3_registered g = False"

text \<open>
  What the callers of a remote session can see of a world: the session, the goroutines
  with the values returned to them, and the channels. The requests that reached the
  transport are not part of it.
\<close>

definition s3_visible :: "s3_world \<Rightarrow> S3BackupSession \<times> s3_goroutine list \<times> chan list" where
  "s3_visible w = (s3_session w, s3_goroutines w, s3_done_chans w)"

text \<open>
  A call of \<open>WaitForCompletion\<close> that runs alone, as goroutine \<open>n\<close> with its waiter
  \<open>n + 1\<close>: the caller up to the \<open>select\<close>, the waiter through \<open>wg.Wait()\<close> and
  \<open>close(done)\<close>, the \<open>select\<close>.
\<close>

definition s3_wait_alone :: "s3_event \<Rightarrow> nat \<Rightarrow> s3_event list" where
  "s3_wait_alone ev n =
     [ev\<lparr>s3_tid := n\<rparr>, ev\<lparr>s3_tid := n + 1\<rparr>, ev\<lparr>s3_tid := n + 1\<rparr>, ev\<lparr>s3_tid := n\<rparr>]"

section \<open>Invariants\<close>

definition unhindered :: "nat \<Rightarrow> 'o world \<Rightarrow> bool" where
  "unhindered i w \<longleftrightarrow>
     i < length (goroutines w) \<and> save_caller (goroutines w ! i)
   \<and> in_critical (goroutines w ! i) = cleaningMutex (session w)"

text \<open>
  What every reachable world of a local session satisfies: the flag
  \<open>isCleaningActive\<close> is set exactly while one pass is active or about to be started;
  the mutex is held exactly while one caller is between \<open>Lock\<close> and \<open>Unlock\<close>; no
  caller is between its locked re-check and its store while the flag is set; the wait
  group counts the registered goroutines; no goroutine has panicked.
\<close>

definition trigger_inv :: "'o world \<Rightarrow> bool" where
  "trigger_inv w \<longleftrightarrow>
     count_where active_pass (goroutines w) + count_where dispatching (goroutines w) =
       (if isCleaningActive (session w) then 1 else 0)
   \<and> count_where in_critical (goroutines w) = (if cleaningMutex (session w) then 1 else 0)
   \<and> (isCleaningActive (session w) \<longrightarrow> count_where decided (goroutines w) = 0)
   \<and> wg (session w) = int (count_where registered (goroutines w))
   \<and> count_where (\<lambda>g. g = Panicked) (goroutines w) = 0"

text \<open>
  While the cleanup pass that \<open>NewLocalBackupSession\<close> started (goroutine 0) has not
  called \<open>wg.Done()\<close>, no \<open>done\<close> channel is closed, no waiter is
  past \<open>wg.Wait()\<close>, and no \<open>WaitForCompletion\<close> has returned \<open>nil\<close>.
\<close>

definition bootstrap_inv :: "'o world \<Rightarrow> bool" where
  "bootstrap_inv w \<longleftrightarrow>
     goroutines w \<noteq> []
   \<and> (unfinished_pass (goroutines w ! 0) \<or> goroutines w ! 0 = Pass_Exited)
   \<and> (goroutines w ! 0 \<noteq> Pass_Exited \<longrightarrow>
        list_all (\<lambda>c. c = Open) (done_chans w)
      \<and> list_all (\<lambda>g. (\<forall>k. g \<noteq> Waiting (Waiter_Close k)) \<and> g \<noteq> Waiting (Wait_Returned None))
           (goroutines w))"

definition s3_inv :: "s3_world \<Rightarrow> bool" where
  "s3_inv w \<longleftrightarrow> s3_wg (s3_session w) = int (count_where s3_registered (s3_goroutines w))"

section \<open>Example inputs\<close>

text \<open>
  The scenario of the specification: threshold 10 units, target 20 units, check
  interval 1 unit, on a disk of 100 units.
\<close>

definition example_config :: "unit LocalBackupSessionConfig" where
  "example_config =
     \<lparr>RootDir = ''/backup'', FreeSpaceThreshold = 10, TargetFreeSpace = 20, CheckInterval = 1,
      CleaningConfig = \<lparr>MaxUsagePercent = None, Passthrough = ()\<rparr>\<rparr>"

definition example_usage :: "uint64 \<Rightarrow> DiskUsage" where
  "example_usage free = \<lparr>Total = 100, Free = free, Used = 100 - free\<rparr>"

definition example_session :: "unit LocalBackupSession" where
  "example_session =
     \<lparr>config = example_config, accumulatedSize = 0, cleaningMutex = False,
      isCleaningActive = False, cleaningDone = Open, wg = 0\<rparr>"

text \<open>An event for goroutine \<open>i\<close> at a moment when 9 units are free.\<close>

definition example_event :: "nat \<Rightarrow> event" where
  "example_event i =
     \<lparr>ev_tid = i, ev_probe = Inr (example_usage 9), ev_engine = None, ev_ctx_err = None,
      ev_prefer_ctx = False\<rparr>"

text \<open>
  An operating system in which no call fails, with stand-ins for the path functions,
  and a file system with one regular file of three bytes.
\<close>

definition example_syscalls :: syscalls where
  "example_syscalls =
     \<lparr>filepath_Join = (\<lambda>a b. a @ ''/'' @ b), filepath_Dir = (\<lambda>p. ''/backup''),
      filepath_ToSlash = (\<lambda>p. p), umask = 18, stat_fails = None, mkdirAll_fails = None,
      open_fails = None, create_fails = None, copy_fails = None, restat_fails = None,
      chmod_fails = None, sync_fails = None, remove_fails = None\<rparr>"

definition example_fs :: filesystem where
  "example_fs =
     (\<lambda>name. if name = ''/tmp/a'' then Some \<lparr>regular = True, mode = 420, content = [1, 2, 3]\<rparr>
             else None)"

definition example_s3_session :: S3BackupSession where
  "example_s3_session =
     \<lparr>s3_config = \<lparr>Region = ''us-east-1'', AccessKeyID = [], SecretAccessKey = [],
                    SessionToken = [], Bucket = ''test-bucket'', Prefix = ''backup'',
                    Endpoint = [], ACL = ''private''\<rparr>,
      s3_wg = 0\<rparr>"

text \<open>An event for goroutine \<open>i\<close> at a moment when the transport fails.\<close>

definition example_s3_event :: "nat \<Rightarrow> s3_event" where
  "example_s3_event i =
     \<lparr>s3_tid = i, s3_sys = example_syscalls, s3_fs = example_fs,
      s3_put = Some (External ''network timeout''), s3_ctx_err = None, s3_prefer_ctx = False\<rparr>"

section \<open>Counting goroutines\<close>

lemma count_where_append: "count_where P (xs @ ys) = count_where P xs + count_where P ys"
  by (simp add: count_where_def)

lemma count_where_Nil: "count_where P [] = 0"
  by (simp add: count_where_def)

lemma count_where_Cons: "count_where P (x # xs) = (if P x then 1 else 0) + count_where P xs"
  by (simp add: count_where_def)

lemma count_where_update:
  "i < length gs \<Longrightarrow>
     count_where P (gs[i := g]) + (if P (gs ! i) then 1 else 0) =
     count_where P gs + (if P g then 1 else 0)"
proof (induction gs arbitrary: i)
  case Nil
  then show ?case by simp
next
  case (Cons a gs)
  show ?case
  proof (cases i)
    case 0
    then show ?thesis by (simp add: count_where_Cons)
  next
    case (Suc j)
    with Cons.prems have "j < length gs" by simp
    from Cons.IH [OF this] Suc show ?thesis by (simp add: count_where_Cons)
  qed
qed

lemma count_where_pos: "i < length gs \<Longrightarrow> P (gs ! i) \<Longrightarrow> 0 < count_where P gs"
  by (auto simp: count_where_def filter_empty_conv)

lemma count_where_update':
  "i < length gs \<Longrightarrow>
     count_where P (gs[i := g]) =
       (if P (gs ! i) then count_where P gs - 1 else count_where P gs) + (if P g then 1 else 0)"
  using count_where_update [of i gs P g] count_where_pos [of i gs P]
  by (auto split: if_splits)

lemma count_where_mono:
  "(\<And>g. P g \<Longrightarrow> Q g) \<Longrightarrow> count_where P gs \<le> count_where Q gs"
  by (induction gs) (auto simp: count_where_Cons count_where_Nil)

lemma count_where_none:
  "list_all Q gs \<Longrightarrow> (\<And>g. Q g \<Longrightarrow> \<not> P g) \<Longrightarrow> count_where P gs = 0"
  by (induction gs) (auto simp: count_where_Cons count_where_Nil)

section \<open>The functions and their goroutines\<close>

text \<open>
  A goroutine that runs alone does what the function it executes does when run without
  interruption: the capacity check, the cleanup pass, and \<open>Save\<close> after its copy. A
  \<open>Save\<close> that returns an error has not touched the session.
\<close>

lemma Save_error_leaves_session:
  assumes "Save sys getDiskUsage localFilePath relativePath (s, fs) = Some (Some err, s', fs', gs)"
  shows "s' = s \<and> gs = []"
  using assms
  by (auto simp: Save_def Let_def split: if_splits sum.splits option.splits prod.splits)

lemma run_Cons: "run (ev # evs) w = run evs (world_step ev w)"
  by (simp add: run_def)

lemma run_Nil: "run [] w = w"
  by (simp add: run_def)

lemma world_step_alone:
  "ev_tid ev = 0 \<Longrightarrow>
   world_step ev \<lparr>session = s, goroutines = g # gs, done_chans = cs\<rparr> =
     (case step ev s cs g of
        None \<Rightarrow> \<lparr>session = s, goroutines = g # gs, done_chans = cs\<rparr>
      | Some (s', cs', g', new) \<Rightarrow>
          \<lparr>session = s', goroutines = (g' # gs) @ new, done_chans = cs'\<rparr>)"
  by (simp add: world_step_def split: option.splits)

lemma checkAndCleanIfNeeded_alone:
  assumes "ev_tid ev = 0" and "ev_probe ev = getDiskUsage"
  shows "run (replicate 8 ev) \<lparr>session = s, goroutines = [Check_Fast], done_chans = cs\<rparr> =
           (case checkAndCleanIfNeeded getDiskUsage s of
              Some (s', new) \<Rightarrow>
                \<lparr>session = s', goroutines = Save_Returned # new, done_chans = cs\<rparr>
            | None \<Rightarrow> \<lparr>session = s, goroutines = [Check_Lock], done_chans = cs\<rparr>)"
proof (cases "isCleaningActive s")
  case True
  with assms show ?thesis
    by (simp add: run_Cons run_Nil world_step_alone checkAndCleanIfNeeded_def numeral_eq_Suc)
next
  case idle: False
  show ?thesis
  proof (cases "cleaningMutex s")
    case True
    with idle assms show ?thesis
      by (simp add: run_Cons run_Nil world_step_alone checkAndCleanIfNeeded_def numeral_eq_Suc)
  next
    case free: False
    show ?thesis
    proof (cases getDiskUsage)
      case (Inl err)
      with idle free assms show ?thesis
        by (simp add: run_Cons run_Nil world_step_alone checkAndCleanIfNeeded_def numeral_eq_Suc)
    next
      case (Inr diskInfo)
      with idle free assms show ?thesis
        by (cases "Free diskInfo < FreeSpaceThreshold (config s)")
           (simp_all add: run_Cons run_Nil world_step_alone checkAndCleanIfNeeded_def Let_def
              numeral_eq_Suc)
    qed
  qed
qed

lemma performCleaning_alone:
  assumes "ev_tid ev = 0" and "ev_probe ev = getDiskUsage" and "ev_engine ev = cleanBackup"
    and "0 < wg s"
  shows "run (replicate 5 ev) \<lparr>session = s, goroutines = [Pass_Probe], done_chans = cs\<rparr> =
           \<lparr>session = (fst (performCleaning getDiskUsage cleanBackup s))
                        \<lparr>wg := wg s - 1\<rparr>,
            goroutines = [Pass_Exited], done_chans = cs\<rparr>"
  using assms
  by (cases getDiskUsage; cases cleanBackup)
     (simp_all add: run_Cons run_Nil world_step_alone performCleaning_def Let_def numeral_eq_Suc)

lemma Save_alone:
  assumes "ev_tid ev = 0" and "ev_probe ev = getDiskUsage"
    and "localFilePath \<noteq> []" and "relativePath \<noteq> []"
    and "os_Stat (stat_fails sys) fs localFilePath = Inr srcInfo" and "regular srcInfo"
    and "mkdirAll_fails sys = None"
    and "copyFile sys localFilePath (filepath_Join sys (RootDir (config s)) relativePath) fs =
           (None, fs')"
  shows "run (replicate 9 ev)
           \<lparr>session = s, goroutines = [Save_Accumulate (of_nat (length (content srcInfo)))],
            done_chans = cs\<rparr> =
         (case Save sys getDiskUsage localFilePath relativePath (s, fs) of
            Some (r, s', fs'', new) \<Rightarrow>
              \<lparr>session = s', goroutines = Save_Returned # new, done_chans = cs\<rparr>
          | None \<Rightarrow>
              \<lparr>session = s\<lparr>accumulatedSize :=
                               accumulatedSize s + of_nat (length (content srcInfo))\<rparr>,
               goroutines = [Check_Lock], done_chans = cs\<rparr>)"
proof -
  let ?s1 = "s\<lparr>accumulatedSize := accumulatedSize s + of_nat (length (content srcInfo))\<rparr>"
  show ?thesis
  proof (cases "word_sle (CheckInterval (config s))
                  (accumulatedSize s + of_nat (length (content srcInfo)))")
    case True
    have nine: "replicate 9 ev = ev # replicate 8 ev"
      by (simp add: numeral_eq_Suc)
    from True assms checkAndCleanIfNeeded_alone [OF assms(1,2), of ?s1 cs] show ?thesis
      by (cases "checkAndCleanIfNeeded getDiskUsage ?s1")
         (auto simp: nine run_Cons world_step_alone Save_def Let_def)
  next
    case False
    with assms show ?thesis
      by (simp add: run_Cons run_Nil world_step_alone Save_def Let_def numeral_eq_Suc)
  qed
qed

section \<open>The cleaning trigger under concurrent saves\<close>

lemma decided_in_critical: "decided g \<Longrightarrow> in_critical g"
  by (cases g) simp_all

lemma caller_cases: "caller g \<Longrightarrow> (\<exists>n. g = Save_Accumulate n) \<or> g = Waiting Wait_Start"
  by (cases g rule: caller.cases) simp_all

lemma trigger_inv_step:
  assumes "trigger_inv w"
  shows "trigger_inv (world_step ev w)"
proof (cases "ev_tid ev < length (goroutines w)")
  case False
  with assms show ?thesis by (simp add: world_step_def)
next
  case True
  note pos = count_where_pos [OF True]
  have dc: "count_where decided (goroutines w) \<le> count_where in_critical (goroutines w)"
    by (rule count_where_mono) (rule decided_in_critical)
  show ?thesis
  proof (cases "goroutines w ! ev_tid ev")
    case (Waiting g)
    with assms True show ?thesis
      by (cases g)
         (auto simp: world_step_def trigger_inv_def Let_def count_where_update'
            count_where_append count_where_Nil count_where_Cons
            split: if_splits option.splits sum.splits)
  qed (use assms True dc pos [of active_pass] pos [of dispatching] pos [of in_critical]
         pos [of decided] pos [of registered] in
       \<open>auto simp: world_step_def trigger_inv_def Let_def count_where_update'
            count_where_append count_where_Nil count_where_Cons
            split: if_splits option.splits sum.splits\<close>)
qed

lemma trigger_inv_run: "trigger_inv w \<Longrightarrow> trigger_inv (run evs w)"
  unfolding run_def by (induction evs arbitrary: w) (simp_all add: trigger_inv_step)

lemma trigger_inv_start:
  assumes "NewLocalBackupSession mkdirAll getDiskUsage c = Inr constructed"
    and "list_all caller callers"
  shows "trigger_inv (start_world constructed callers)"
proof -
  have z: "count_where P callers = 0" if "\<And>g. caller g \<Longrightarrow> \<not> P g" for P
    using assms(2) that by (rule count_where_none)
  have "count_where active_pass callers = 0" "count_where dispatching callers = 0"
    "count_where in_critical callers = 0" "count_where decided callers = 0"
    "count_where registered callers = 0" "count_where (\<lambda>g. g = Panicked) callers = 0"
    by (rule z; auto dest: caller_cases)+
  with assms(1) show ?thesis
    by (auto simp: NewLocalBackupSession_def trigger_inv_def start_world_def Let_def
        count_where_append count_where_Cons count_where_Nil
        split: option.splits sum.splits if_splits)
qed

text \<open>
  The mutex is never held for long: its holder is inside the capacity check, where no
  step waits, and has unlocked after at most six steps of its own.
\<close>

lemma holder_step:
  assumes "ev_tid ev < length (goroutines w)"
    and "in_critical (goroutines w ! ev_tid ev)" and "cleaningMutex (session w)"
    and "steps_to_unlock (goroutines w ! ev_tid ev) \<le> Suc n"
  shows "ev_tid ev < length (goroutines (world_step ev w))
       \<and> (in_critical (goroutines (world_step ev w) ! ev_tid ev)
            \<and> cleaningMutex (session (world_step ev w))
            \<and> steps_to_unlock (goroutines (world_step ev w) ! ev_tid ev) \<le> n
          \<or> goroutines (world_step ev w) ! ev_tid ev = Save_Returned
            \<and> \<not> cleaningMutex (session (world_step ev w)))"
  using assms
  by (cases "goroutines w ! ev_tid ev")
     (auto simp: world_step_def nth_append split: sum.splits)

lemma returned_step:
  assumes "goroutines w ! ev_tid ev = Save_Returned"
  shows "world_step ev w = w"
  using assms by (simp add: world_step_def)

lemma holder_run:
  assumes "ev_tid ev < length (goroutines w)"
    and "in_critical (goroutines w ! ev_tid ev) \<and> cleaningMutex (session w)
           \<and> steps_to_unlock (goroutines w ! ev_tid ev) \<le> n
         \<or> goroutines w ! ev_tid ev = Save_Returned \<and> \<not> cleaningMutex (session w)"
  shows "\<not> cleaningMutex (session (run (replicate n ev) w))"
  using assms
proof (induction n arbitrary: w)
  case 0
  then show ?case
    by (cases "goroutines w ! ev_tid ev") (auto simp: run_Nil)
next
  case (Suc n)
  from Suc.prems(2) show ?case
  proof
    assume h: "in_critical (goroutines w ! ev_tid ev) \<and> cleaningMutex (session w)
           \<and> steps_to_unlock (goroutines w ! ev_tid ev) \<le> Suc n"
    from holder_step [OF Suc.prems(1), of n] h
    show ?thesis
      by (simp only: replicate_Suc run_Cons) (rule Suc.IH; blast)
  next
    assume h: "goroutines w ! ev_tid ev = Save_Returned \<and> \<not> cleaningMutex (session w)"
    then have "world_step ev w = w" by (simp add: returned_step)
    with Suc.IH [of w] Suc.prems(1) h show ?thesis
      by (simp add: run_Cons)
  qed
qed

lemma steps_to_unlock_le: "steps_to_unlock g \<le> 6"
  by (cases g) simp_all

lemma mutex_holder_releases:
  assumes "trigger_inv w" and "cleaningMutex (session w)"
  shows "\<exists>j < length (goroutines w). in_critical (goroutines w ! j)
           \<and> (\<forall>ev. ev_tid ev = j \<longrightarrow> \<not> cleaningMutex (session (run (replicate 6 ev) w)))"
proof -
  from assms have "filter in_critical (goroutines w) \<noteq> []"
    by (auto simp: trigger_inv_def count_where_def)
  then obtain j where j: "j < length (goroutines w)" "in_critical (goroutines w ! j)"
    by (auto simp: filter_empty_conv in_set_conv_nth)
  have "\<not> cleaningMutex (session (run (replicate 6 ev) w))" if "ev_tid ev = j" for ev
    using holder_run [of ev w 6] j assms(2) that steps_to_unlock_le [of "goroutines w ! j"]
    by simp
  with j show ?thesis by blast
qed

text \<open>
  So every caller of \<open>Save\<close> can run to its return: at once when it is unhindered,
  and otherwise after the holder of the mutex has unlocked.
\<close>

lemma caller_step:
  assumes "unhindered (ev_tid ev) w"
    and "steps_to_return (goroutines w ! ev_tid ev) \<le> Suc n"
  shows "unhindered (ev_tid ev) (world_step ev w)
       \<and> steps_to_return (goroutines (world_step ev w) ! ev_tid ev) \<le> n"
  using assms
  by (cases "goroutines w ! ev_tid ev")
     (auto simp: unhindered_def world_step_def Let_def nth_append split: sum.splits)

lemma caller_run:
  assumes "unhindered (ev_tid ev) w"
    and "steps_to_return (goroutines w ! ev_tid ev) \<le> n"
  shows "goroutines (run (replicate n ev) w) ! ev_tid ev = Save_Returned"
  using assms
proof (induction n arbitrary: w)
  case 0
  then show ?case
    by (cases "goroutines w ! ev_tid ev") (auto simp: run_Nil unhindered_def)
next
  case (Suc n)
  from caller_step [OF Suc.prems] show ?case
    by (simp only: replicate_Suc run_Cons) (rule Suc.IH; blast)
qed

lemma steps_to_return_le: "steps_to_return g \<le> 9"
  by (cases g) simp_all

lemma other_step:
  assumes "i < length (goroutines w)" and "ev_tid ev \<noteq> i"
  shows "i < length (goroutines (world_step ev w))
       \<and> goroutines (world_step ev w) ! i = goroutines w ! i"
  using assms by (auto simp: world_step_def nth_append split: option.splits)

lemma other_run:
  assumes "i < length (goroutines w)" and "ev_tid ev \<noteq> i"
  shows "i < length (goroutines (run (replicate n ev) w))
       \<and> goroutines (run (replicate n ev) w) ! i = goroutines w ! i"
  using assms
proof (induction n arbitrary: w)
  case 0
  then show ?case by (simp add: run_Nil)
next
  case (Suc n)
  from other_step [OF Suc.prems] Suc.IH [of "world_step ev w"] Suc.prems(2)
  show ?case by (simp add: run_Cons)
qed

lemma run_append: "run (evs @ evs') w = run evs' (run evs w)"
  by (simp add: run_def)

lemma save_caller_can_return:
  assumes t: "trigger_inv w" and i: "i < length (goroutines w)"
    and c: "save_caller (goroutines w ! i)"
  shows "\<exists>evs. goroutines (run evs w) ! i = Save_Returned"
proof (cases "in_critical (goroutines w ! i) = cleaningMutex (session w)")
  case True
  with i c have "unhindered i w" by (simp add: unhindered_def)
  from caller_run [of "\<lparr>ev_tid = i, ev_probe = Inl ErrBackupFailed, ev_engine = None,
      ev_ctx_err = None, ev_prefer_ctx = False\<rparr>" w 9] this
    steps_to_return_le [of "goroutines w ! i"]
  show ?thesis by auto
next
  case False
  have held: "cleaningMutex (session w)" and out: "\<not> in_critical (goroutines w ! i)"
    using False t i count_where_pos [OF i, of in_critical]
    by (auto simp: trigger_inv_def split: if_splits)
  from mutex_holder_releases [OF t held] obtain j where
    j: "j < length (goroutines w)" "in_critical (goroutines w ! j)"
      "\<And>ev. ev_tid ev = j \<Longrightarrow> \<not> cleaningMutex (session (run (replicate 6 ev) w))"
    by blast
  let ?ej = "\<lparr>ev_tid = j, ev_probe = Inl ErrBackupFailed, ev_engine = None,
      ev_ctx_err = None, ev_prefer_ctx = False\<rparr>"
  let ?ei = "\<lparr>ev_tid = i, ev_probe = Inl ErrBackupFailed, ev_engine = None,
      ev_ctx_err = None, ev_prefer_ctx = False\<rparr>"
  let ?w = "run (replicate 6 ?ej) w"
  from j(2) out have "j \<noteq> i" by auto
  with other_run [of i w ?ej 6] i
  have same: "i < length (goroutines ?w)" "goroutines ?w ! i = goroutines w ! i"
    by simp_all
  from j(3) [of ?ej] have "\<not> cleaningMutex (session ?w)" by simp
  with same c out have "unhindered i ?w" by (simp add: unhindered_def)
  from caller_run [of ?ei ?w 9] this steps_to_return_le [of "goroutines ?w ! i"]
  have "goroutines (run (replicate 6 ?ej @ replicate 9 ?ei) w) ! i = Save_Returned"
    by (simp add: run_append)
  then show ?thesis by blast
qed

text \<open>
  C2. Take any session that \<open>NewLocalBackupSession\<close> returned, any calls of \<open>Save\<close>
  and \<open>WaitForCompletion\<close> on it, and any interleaving \<open>evs\<close> of their steps and of
  the steps of the cleanup passes, with any answers of the probe and the engine. In the
  world reached, the cleanup passes in the Active state (started, and not yet past their
  store of \<open>false\<close> into \<open>isCleaningActive\<close>) and the callers that have stored \<open>true\<close>
  and not yet started their pass number one when the flag is set and none otherwise. So
  at most one pass is Active at any instant, and no caller is about to start a pass while
  one is Active. A pass that has stored \<open>false\<close> still resets the counter and calls
  \<open>wg.Done()\<close>; it is no longer Active then.
\<close>

theorem at_most_one_active_pass:
  assumes "NewLocalBackupSession mkdirAll getDiskUsage c = Inr constructed"
    and "list_all caller callers"
  shows "count_where active_pass (goroutines (run evs (start_world constructed callers))) +
         count_where dispatching (goroutines (run evs (start_world constructed callers))) =
           (if isCleaningActive (session (run evs (start_world constructed callers)))
            then 1 else 0)
       \<and> count_where active_pass (goroutines (run evs (start_world constructed callers))) \<le> 1"
proof -
  have "trigger_inv (run evs (start_world constructed callers))"
    by (rule trigger_inv_run) (rule trigger_inv_start [OF assms])
  then show ?thesis by (auto simp: trigger_inv_def split: if_splits)
qed

theorem at_most_one_active_pass_witness:
  "NewLocalBackupSession None (Inr (example_usage 50)) example_config = Inr (example_session, [])
   \<and> list_all caller [Save_Accumulate 1, Save_Accumulate 1]
   \<and> goroutines (run (map example_event [0, 1, 0, 1, 0, 1, 0, 0, 0, 0, 0, 0, 1, 1, 1])
        (start_world (example_session, []) [Save_Accumulate 1, Save_Accumulate 1])) =
      [Save_Returned, Save_Returned, Pass_Probe]
   \<and> count_where active_pass
        (goroutines (run (map example_event [0, 1, 0, 1, 0, 1, 0, 0, 0, 0, 0, 0, 1, 1, 1])
          (start_world (example_session, []) [Save_Accumulate 1, Save_Accumulate 1]))) \<le> 1"
proof -
  have h1: "NewLocalBackupSession None (Inr (example_usage 50)) example_config =
              Inr (example_session, [])"
    by code_simp
  have h2: "list_all caller [Save_Accumulate 1, Save_Accumulate 1]"
    by simp
  have h3: "goroutines (run (map example_event [0, 1, 0, 1, 0, 1, 0, 0, 0, 0, 0, 0, 1, 1, 1])
        (start_world (example_session, []) [Save_Accumulate 1, Save_Accumulate 1])) =
      [Save_Returned, Save_Returned, Pass_Probe]"
    by code_simp
  from at_most_one_active_pass [OF h1 h2] h1 h2 h3 show ?thesis by blast
qed

section \<open>Construction and the capacity probe\<close>

lemma checkAndCleanIfNeeded_probe_failure:
  "checkAndCleanIfNeeded (Inl e) s =
     (if isCleaningActive s then Some (s, []) else if cleaningMutex s then None else Some (s, []))"
  by (simp add: checkAndCleanIfNeeded_def Let_def)

lemma checkAndCleanIfNeeded_blocks:
  "checkAndCleanIfNeeded p s = None \<longleftrightarrow> \<not> isCleaningActive s \<and> cleaningMutex s"
  by (auto simp: checkAndCleanIfNeeded_def Let_def split: sum.splits)

lemma Save_result_independent_of_probe:
  "map_option fst (Save sys p1 localFilePath relativePath w) =
   map_option fst (Save sys p2 localFilePath relativePath w)"
proof -
  have "map_option (\<lambda>x. None :: error option) (checkAndCleanIfNeeded p1 s) =
        map_option (\<lambda>x. None) (checkAndCleanIfNeeded p2 s)" for s :: "'a LocalBackupSession"
    using checkAndCleanIfNeeded_blocks [of p1 s] checkAndCleanIfNeeded_blocks [of p2 s]
    by (cases "checkAndCleanIfNeeded p1 s"; cases "checkAndCleanIfNeeded p2 s") auto
  then show ?thesis
    by (simp add: Save_def Let_def option.map_comp comp_def case_prod_unfold
        split: sum.splits option.splits prod.splits)
qed

text \<open>
  C1, as stated, fails for construction. With a valid configuration and a root
  directory that can be created, a capacity probe that fails makes
  \<open>NewLocalBackupSession\<close> return an error and no session.
\<close>

theorem construct_returns_probe_error:
  "NewLocalBackupSession None (Inl (External ''statfs failed'')) example_config =
     Inl (Wrapf ''failed to get disk usage: statfs failed'' (External ''statfs failed''))"
  by code_simp

text \<open>
  C1, amended. An error of the capacity probe never reaches the caller of \<open>Save\<close>: what
  \<open>Save\<close> returns is the same for every answer of the probe, and a capacity check whose
  probe fails ends without a change to the session and without starting a pass. The
  construction is different: for a valid configuration whose root directory exists or
  can be created, a failing probe makes \<open>NewLocalBackupSession\<close> return the error
  \<open>failed to get disk usage\<close>, which wraps the probe's error, and no session.
\<close>

theorem probe_error_absorbed_by_save_returned_by_construct:
  "map_option fst (Save sys (Inl e) localFilePath relativePath w) =
     map_option fst (Save sys p localFilePath relativePath w)
   \<and> (\<not> cleaningMutex s \<longrightarrow> checkAndCleanIfNeeded (Inl e) s = Some (s, []))
   \<and> (validateLocalConfig c = None \<longrightarrow>
        NewLocalBackupSession None (Inl e) c =
          Inl (Wrapf (''failed to get disk usage: '' @ Error e) e))"
  using Save_result_independent_of_probe [of sys "Inl e" localFilePath relativePath w p]
  by (simp add: checkAndCleanIfNeeded_probe_failure NewLocalBackupSession_def Let_def)

theorem probe_error_absorbed_by_save_returned_by_construct_witness:
  "\<not> cleaningMutex example_session
   \<and> validateLocalConfig example_config = None
   \<and> checkAndCleanIfNeeded (Inl (External ''statfs failed'')) example_session =
       Some (example_session, [])
   \<and> NewLocalBackupSession None (Inl (External ''statfs failed'')) example_config =
       Inl (Wrapf (''failed to get disk usage: '' @ Error (External ''statfs failed''))
              (External ''statfs failed''))
   \<and> map_option fst
        (Save example_syscalls (Inl (External ''statfs failed'')) ''/tmp/a'' ''test.dat''
           (example_session, example_fs)) =
      map_option fst
        (Save example_syscalls (Inr (example_usage 50)) ''/tmp/a'' ''test.dat''
           (example_session, example_fs))"
proof -
  have h1: "\<not> cleaningMutex example_session"
    by (simp add: example_session_def)
  have h2: "validateLocalConfig example_config = None"
    by (simp add: validateLocalConfig_def example_config_def)
  from probe_error_absorbed_by_save_returned_by_construct
         [of example_syscalls "External ''statfs failed''" "''/tmp/a''" "''test.dat''"
            "(example_session, example_fs)" "Inr (example_usage 50)" example_session
            example_config]
       h1 h2
  show ?thesis by simp
qed

section \<open>The cleanup pass\<close>

text \<open>
  C3. Whatever the probe answers and whatever the engine returns, the session that
  \<open>performCleaning\<close> leaves behind has \<open>accumulatedSize\<close> zero and
  \<open>isCleaningActive\<close> false (Idle), and is otherwise the session it started with. In
  the interleaving model these are the two stores every pass makes before its
  \<open>wg.Done()\<close> (\<open>performCleaning_alone\<close>); what other goroutines store after them
  is their own doing.
\<close>

theorem cleanup_pass_resets_counter_and_state:
  "accumulatedSize (fst (performCleaning getDiskUsage cleanBackup s)) = 0
   \<and> \<not> isCleaningActive (fst (performCleaning getDiskUsage cleanBackup s))
   \<and> fst (performCleaning getDiskUsage cleanBackup s) =
       s\<lparr>isCleaningActive := False, accumulatedSize := 0\<rparr>"
  by (simp add: performCleaning_def Let_def split: sum.splits option.splits)










section \<open>Save\<close>

lemma os_Stat_Inr: "os_Stat fault fs name = Inr f \<longleftrightarrow> fault = None \<and> fs name = Some f"
  by (auto simp: os_Stat_def split: option.splits)

text \<open>
  C5. Let the paths be non-empty, the source a regular file that \<open>os.Stat\<close> finds, the
  destination directory creatable and \<open>copyFile\<close> successful. Then for every answer of
  the capacity probe (an error, low space, enough space) and every state of the session
  that earlier saves and cleanup passes have left, \<open>Save\<close> returns \<open>nil\<close>; the one
  other possibility is that it waits at \<open>Lock\<close> while another goroutine holds the
  mutex. It returns no error. The wait ends: in every world that the goroutines on a
  constructed session can reach, each caller of \<open>Save\<close> that is past its copy has a
  continuation in which it returns, and what it returns is \<open>nil\<close>.
\<close>

theorem save_returns_nil_after_successful_copy:
  assumes "localFilePath \<noteq> []" and "relativePath \<noteq> []"
    and "os_Stat (stat_fails sys) fs localFilePath = Inr srcInfo" and "regular srcInfo"
    and "mkdirAll_fails sys = None"
    and "copyFile sys localFilePath (filepath_Join sys (RootDir (config s)) relativePath) fs =
           (None, fs')"
    and "NewLocalBackupSession mkdirAll getDiskUsage0 c = Inr constructed"
    and "list_all caller callers"
  shows "((\<exists>s' gs. Save sys getDiskUsage localFilePath relativePath (s, fs) =
                    Some (None, s', fs', gs))
        \<or> (cleaningMutex s \<and> Save sys getDiskUsage localFilePath relativePath (s, fs) = None))
       \<and> (\<forall>evs i. i < length (goroutines (run evs (start_world constructed callers)))
              \<and> save_caller (goroutines (run evs (start_world constructed callers)) ! i) \<longrightarrow>
            (\<exists>evs'. goroutines (run evs' (run evs (start_world constructed callers))) ! i =
                      Save_Returned))"
proof -
  have a: "(\<exists>s' gs. Save sys getDiskUsage localFilePath relativePath (s, fs) =
                    Some (None, s', fs', gs))
        \<or> (cleaningMutex s \<and> Save sys getDiskUsage localFilePath relativePath (s, fs) = None)"
  proof (cases "checkAndCleanIfNeeded getDiskUsage
                  (s\<lparr>accumulatedSize := accumulatedSize s + of_nat (length (content srcInfo))\<rparr>)")
    case None
    with checkAndCleanIfNeeded_blocks [of getDiskUsage
        "s\<lparr>accumulatedSize := accumulatedSize s + of_nat (length (content srcInfo))\<rparr>"]
      assms(1-6)
    show ?thesis by (auto simp: Save_def Let_def)
  next
    case (Some a)
    with assms(1-6) show ?thesis by (cases a) (auto simp: Save_def Let_def)
  qed
  have "trigger_inv (run evs (start_world constructed callers))" for evs
    by (rule trigger_inv_run) (rule trigger_inv_start [OF assms(7,8)])
  then have b: "\<exists>evs'. goroutines (run evs' (run evs (start_world constructed callers))) ! i =
                      Save_Returned"
    if "i < length (goroutines (run evs (start_world constructed callers)))"
      and "save_caller (goroutines (run evs (start_world constructed callers)) ! i)" for evs i
    using that by (rule save_caller_can_return)
  from a b show ?thesis by blast
qed

theorem save_returns_nil_after_successful_copy_witness:
  "''/tmp/a'' \<noteq> [] \<and> ''test.dat'' \<noteq> []
   \<and> os_Stat (stat_fails example_syscalls) example_fs ''/tmp/a'' =
       Inr \<lparr>regular = True, mode = 420, content = [1, 2, 3]\<rparr>
   \<and> mkdirAll_fails example_syscalls = None
   \<and> fst (copyFile example_syscalls ''/tmp/a''
            (filepath_Join example_syscalls (RootDir (config example_session)) ''test.dat'')
            example_fs) = None
   \<and> NewLocalBackupSession None (Inr (example_usage 50)) example_config =
       Inr (example_session, [])
   \<and> list_all caller [Save_Accumulate 3]
   \<and> \<not> cleaningMutex example_session
   \<and> map_option fst
        (Save example_syscalls (Inr (example_usage 9)) ''/tmp/a'' ''test.dat''
           (example_session, example_fs)) = Some None
   \<and> (\<exists>evs'. goroutines
                (run evs' (run [] (start_world (example_session, []) [Save_Accumulate 3]))) ! 0 =
              Save_Returned)"
proof -
  have h3: "os_Stat (stat_fails example_syscalls) example_fs ''/tmp/a'' =
              Inr \<lparr>regular = True, mode = 420, content = [1, 2, 3]\<rparr>"
    by (simp add: os_Stat_def example_syscalls_def example_fs_def)
  have h4: "regular \<lparr>regular = True, mode = 420, content = [1, 2, 3]\<rparr>"
    by simp
  have h5: "mkdirAll_fails example_syscalls = None"
    by (simp add: example_syscalls_def)
  have h6: "fst (copyFile example_syscalls ''/tmp/a''
            (filepath_Join example_syscalls (RootDir (config example_session)) ''test.dat'')
            example_fs) = None"
    by (simp add: copyFile_def os_Open_def os_Create_def io_Copy_def os_Stat_def File_Chmod_def
        example_syscalls_def example_fs_def example_session_def example_config_def)
  then have h6': "copyFile example_syscalls ''/tmp/a''
            (filepath_Join example_syscalls (RootDir (config example_session)) ''test.dat'')
            example_fs =
          (None, snd (copyFile example_syscalls ''/tmp/a''
            (filepath_Join example_syscalls (RootDir (config example_session)) ''test.dat'')
            example_fs))"
    by (simp add: prod_eq_iff)
  have h7: "NewLocalBackupSession None (Inr (example_usage 50)) example_config =
              Inr (example_session, [])"
    by code_simp
  have h8: "list_all caller [Save_Accumulate 3]"
    by simp
  have h9: "\<not> cleaningMutex example_session"
    by (simp add: example_session_def)
  have n: "''/tmp/a'' \<noteq> []" "''test.dat'' \<noteq> []"
    by simp_all
  note t = save_returns_nil_after_successful_copy
             [where getDiskUsage = "Inr (example_usage 9)", OF n h3 h4 h5 h6' h7 h8]
  from t [THEN conjunct1] h9
  have c1: "map_option fst
        (Save example_syscalls (Inr (example_usage 9)) ''/tmp/a'' ''test.dat''
           (example_session, example_fs)) = Some None"
    by auto
  have c2: "\<exists>evs'. goroutines
                (run evs' (run [] (start_world (example_session, []) [Save_Accumulate 3]))) ! 0 =
              Save_Returned"
    by (rule t [THEN conjunct2, rule_format, of 0 "[]"])
       (simp add: run_Nil start_world_def)
  from n h3 h5 h6 h7 h8 h9 c1 c2 show ?thesis by blast
qed

text \<open>
  C7. When the source path or the relative destination path is empty, \<open>Save\<close> of the
  local variant and \<open>Save\<close> of the remote variant return at once an error that wraps
  \<open>ErrInvalidConfig\<close> (the input error). The session is returned as it was, so neither
  \<open>accumulatedSize\<close> nor the wait group has changed; the file system is untouched and
  no goroutine was started.
\<close>

theorem save_rejects_empty_path:
  assumes "localFilePath = [] \<or> relativePath = []"
  shows "(\<exists>err. Save sys getDiskUsage localFilePath relativePath (s, fs) =
                  Some (Some err, s, fs, [])
            \<and> errors_Is err ErrInvalidConfig)
       \<and> (\<exists>err. Save_s3 sys fs localFilePath relativePath r = (Some err, r, [])
            \<and> errors_Is err ErrInvalidConfig)"
  using assms by (auto simp: Save_def Save_s3_def)

theorem save_rejects_empty_path_witness:
  "([] = ([] :: string) \<or> ''test.dat'' = [])
   \<and> (\<exists>err. Save example_syscalls (Inr (example_usage 9)) [] ''test.dat''
               (example_session, example_fs) =
               Some (Some err, example_session, example_fs, [])
          \<and> errors_Is err ErrInvalidConfig)
   \<and> (\<exists>err. Save_s3 example_syscalls example_fs [] ''test.dat'' example_s3_session =
               (Some err, example_s3_session, [])
          \<and> errors_Is err ErrInvalidConfig)"
  using save_rejects_empty_path
          [of "[]" "''test.dat''" example_syscalls "Inr (example_usage 9)" example_session
             example_fs example_s3_session]
  by simp

text \<open>
  C9, as stated, fails when the removal fails too. \<open>io.Copy\<close> fails after one byte and
  \<open>os.Remove\<close>, whose result the code discards, fails as well: \<open>Save\<close> returns the
  backup error and the destination path holds the truncated file.
\<close>

theorem failed_copy_can_leave_truncated_file:
  "Save (example_syscalls\<lparr>copy_fails := Some (1, External ''no space left on device''),
                           remove_fails := Some (External ''permission denied'')\<rparr>)
     (Inr (example_usage 9)) ''/tmp/a'' ''test.dat'' (example_session, example_fs) \<noteq> None
   \<and> fst (the (Save (example_syscalls\<lparr>copy_fails := Some (1, External ''no space left on device''),
                           remove_fails := Some (External ''permission denied'')\<rparr>)
     (Inr (example_usage 9)) ''/tmp/a'' ''test.dat'' (example_session, example_fs))) =
       Some (Wrapf ''backup failed: failed to copy file: no space left on device'' ErrBackupFailed)
   \<and> fst (snd (snd (the (Save (example_syscalls\<lparr>copy_fails := Some (1, External ''no space left on device''),
                           remove_fails := Some (External ''permission denied'')\<rparr>)
     (Inr (example_usage 9)) ''/tmp/a'' ''test.dat'' (example_session, example_fs)))))
       ''/backup/test.dat'' = Some \<lparr>regular = True, mode = 420, content = [1]\<rparr>"
  by (simp add: Save_def Let_def copyFile_def os_Stat_def os_Open_def os_Create_def io_Copy_def
      os_Remove_def example_syscalls_def example_fs_def example_session_def example_config_def)

text \<open>
  C9, amended. Let \<open>Save\<close> reach the copy: paths non-empty, source a regular file,
  destination directory creatable, source opened and destination created. If \<open>io.Copy\<close>
  fails, \<open>Save\<close> calls \<open>os.Remove\<close> on the destination, discards its result and
  returns an error that wraps \<open>ErrBackupFailed\<close>: the destination path holds no file
  afterwards when the removal succeeds, and it holds the truncated file, with the bytes
  written before the failure, when the removal fails as well. If \<open>io.Copy\<close> succeeds and
  the second \<open>os.Stat\<close>, \<open>Chmod\<close> or \<open>Sync\<close> fails, \<open>Save\<close> returns such an error
  too, no removal is attempted and the destination file is still there.
\<close>

theorem failed_copy_attempts_removal:
  assumes "localFilePath \<noteq> []" and "relativePath \<noteq> []"
    and "os_Stat (stat_fails sys) fs localFilePath = Inr srcInfo" and "regular srcInfo"
    and "mkdirAll_fails sys = None" and "open_fails sys = None" and "create_fails sys = None"
    and "dst = filepath_Join sys (RootDir (config s)) relativePath"
  shows "(\<forall>n e. copy_fails sys = Some (n, e) \<and> remove_fails sys = None \<longrightarrow>
            (\<exists>err fs'. Save sys getDiskUsage localFilePath relativePath (s, fs) =
                          Some (Some err, s, fs', [])
               \<and> errors_Is err ErrBackupFailed \<and> fs' dst = None))
       \<and> (\<forall>n e e'. copy_fails sys = Some (n, e) \<and> remove_fails sys = Some e' \<longrightarrow>
            (\<exists>err fs' f. Save sys getDiskUsage localFilePath relativePath (s, fs) =
                          Some (Some err, s, fs', [])
               \<and> errors_Is err ErrBackupFailed \<and> fs' dst = Some f
               \<and> content f = take n (if localFilePath = dst then [] else content srcInfo)))
       \<and> (copy_fails sys = None \<and>
            (restat_fails sys \<noteq> None \<or> chmod_fails sys \<noteq> None \<or> sync_fails sys \<noteq> None) \<longrightarrow>
            (\<exists>err fs' f. Save sys getDiskUsage localFilePath relativePath (s, fs) =
                          Some (Some err, s, fs', [])
               \<and> errors_Is err ErrBackupFailed \<and> fs' dst = Some f))"
  using assms
  by (auto simp: Save_def Let_def copyFile_def os_Stat_Inr os_Open_def os_Create_def io_Copy_def
      os_Remove_def File_Chmod_def os_Stat_def split: option.splits)

theorem failed_copy_attempts_removal_witness:
  "os_Stat (stat_fails example_syscalls) example_fs ''/tmp/a'' =
     Inr \<lparr>regular = True, mode = 420, content = [1, 2, 3]\<rparr>
   \<and> (\<exists>err fs'.
         Save (example_syscalls\<lparr>copy_fails := Some (1, External ''no space left on device'')\<rparr>)
           (Inr (example_usage 9)) ''/tmp/a'' ''test.dat'' (example_session, example_fs) =
           Some (Some err, example_session, fs', [])
       \<and> errors_Is err ErrBackupFailed \<and> fs' ''/backup/test.dat'' = None)
   \<and> (\<exists>err fs' f.
         Save (example_syscalls\<lparr>copy_fails := Some (1, External ''no space left on device''),
                                  remove_fails := Some (External ''permission denied'')\<rparr>)
           (Inr (example_usage 9)) ''/tmp/a'' ''test.dat'' (example_session, example_fs) =
           Some (Some err, example_session, fs', [])
       \<and> errors_Is err ErrBackupFailed \<and> fs' ''/backup/test.dat'' = Some f
       \<and> content f = [1])
   \<and> (\<exists>err fs' f.
         Save (example_syscalls\<lparr>chmod_fails := Some (External ''operation not permitted'')\<rparr>)
           (Inr (example_usage 9)) ''/tmp/a'' ''test.dat'' (example_session, example_fs) =
           Some (Some err, example_session, fs', [])
       \<and> errors_Is err ErrBackupFailed \<and> fs' ''/backup/test.dat'' = Some f)"
proof -
  have h: "os_Stat (stat_fails example_syscalls) example_fs ''/tmp/a'' =
             Inr \<lparr>regular = True, mode = 420, content = [1, 2, 3]\<rparr>"
    by (simp add: os_Stat_def example_syscalls_def example_fs_def)
  have a: "\<exists>err fs'.
         Save (example_syscalls\<lparr>copy_fails := Some (1, External ''no space left on device'')\<rparr>)
           (Inr (example_usage 9)) ''/tmp/a'' ''test.dat'' (example_session, example_fs) =
           Some (Some err, example_session, fs', [])
       \<and> errors_Is err ErrBackupFailed \<and> fs' ''/backup/test.dat'' = None"
    using failed_copy_attempts_removal
            [where sys = "example_syscalls\<lparr>copy_fails :=
                            Some (1, External ''no space left on device'')\<rparr>"
               and fs = example_fs and localFilePath = "''/tmp/a''"
               and relativePath = "''test.dat''" and s = example_session
               and dst = "''/backup/test.dat''"
               and srcInfo = "\<lparr>regular = True, mode = 420, content = [1, 2, 3]\<rparr>"
               and getDiskUsage = "Inr (example_usage 9)"]
    by (simp add: os_Stat_def example_syscalls_def example_fs_def example_session_def
        example_config_def)
  have r: "\<exists>err fs' f.
         Save (example_syscalls\<lparr>copy_fails := Some (1, External ''no space left on device''),
                                  remove_fails := Some (External ''permission denied'')\<rparr>)
           (Inr (example_usage 9)) ''/tmp/a'' ''test.dat'' (example_session, example_fs) =
           Some (Some err, example_session, fs', [])
       \<and> errors_Is err ErrBackupFailed \<and> fs' ''/backup/test.dat'' = Some f
       \<and> content f = [1]"
    using failed_copy_attempts_removal
            [where sys = "example_syscalls\<lparr>copy_fails :=
                            Some (1, External ''no space left on device''),
                            remove_fails := Some (External ''permission denied'')\<rparr>"
               and fs = example_fs and localFilePath = "''/tmp/a''"
               and relativePath = "''test.dat''" and s = example_session
               and dst = "''/backup/test.dat''"
               and srcInfo = "\<lparr>regular = True, mode = 420, content = [1, 2, 3]\<rparr>"
               and getDiskUsage = "Inr (example_usage 9)"]
    by (simp add: os_Stat_def example_syscalls_def example_fs_def example_session_def
        example_config_def)
  have b: "\<exists>err fs' f.
         Save (example_syscalls\<lparr>chmod_fails := Some (External ''operation not permitted'')\<rparr>)
           (Inr (example_usage 9)) ''/tmp/a'' ''test.dat'' (example_session, example_fs) =
           Some (Some err, example_session, fs', [])
       \<and> errors_Is err ErrBackupFailed \<and> fs' ''/backup/test.dat'' = Some f"
    using failed_copy_attempts_removal
            [where sys = "example_syscalls\<lparr>chmod_fails :=
                            Some (External ''operation not permitted'')\<rparr>"
               and fs = example_fs and localFilePath = "''/tmp/a''"
               and relativePath = "''test.dat''" and s = example_session
               and dst = "''/backup/test.dat''"
               and srcInfo = "\<lparr>regular = True, mode = 420, content = [1, 2, 3]\<rparr>"
               and getDiskUsage = "Inr (example_usage 9)"]
    by (simp add: os_Stat_def example_syscalls_def example_fs_def example_session_def
        example_config_def)
  from h a r b show ?thesis by blast
qed

section \<open>Close\<close>

text \<open>
  C10. \<open>Close\<close> closes \<open>cleaningDone\<close> without looking at it. On a session that
  \<open>NewLocalBackupSession\<close> returned the first \<open>Close\<close> returns \<open>nil\<close>; on the session
  any \<open>Close\<close> that returned leaves behind, the next \<open>Close\<close> panics.
\<close>

theorem second_close_panics:
  "(NewLocalBackupSession mkdirAll getDiskUsage c = Inr (t, gs) \<longrightarrow>
      Close t = Some (None, t\<lparr>cleaningDone := Closed\<rparr>))
   \<and> (Close s = Some (r, s') \<longrightarrow> r = None \<and> cleaningDone s' = Closed \<and> Close s' = None)"
  by (auto simp: Close_def close_chan_def NewLocalBackupSession_def Let_def
      split: chan.splits option.splits sum.splits if_splits)

theorem second_close_panics_witness:
  "NewLocalBackupSession None (Inr (example_usage 50)) example_config = Inr (example_session, [])
   \<and> Close example_session = Some (None, example_session\<lparr>cleaningDone := Closed\<rparr>)
   \<and> Close (example_session\<lparr>cleaningDone := Closed\<rparr>) = None"
proof -
  have h1: "NewLocalBackupSession None (Inr (example_usage 50)) example_config =
              Inr (example_session, [])"
    by code_simp
  from second_close_panics
         [of None "Inr (example_usage 50)" example_config example_session "[]"
            example_session None "example_session\<lparr>cleaningDone := Closed\<rparr>"] h1
  show ?thesis by simp
qed

section \<open>The completion barrier of a local session\<close>

lemma list_all_update: "list_all P xs \<Longrightarrow> P x \<Longrightarrow> list_all P (xs[i := x])"
  by (auto simp: list_all_iff dest: set_update_subset_insert [THEN subsetD])

lemma list_all_nth: "list_all P xs \<Longrightarrow> i < length xs \<Longrightarrow> P (xs ! i)"
  by (simp add: list_all_length)

lemma unfinished_pass_registered: "unfinished_pass g \<Longrightarrow> registered g"
  by (cases g) simp_all

lemma bootstrap_inv_step:
  assumes t: "trigger_inv w" and b: "bootstrap_inv w"
  shows "bootstrap_inv (world_step ev w)"
proof (cases "ev_tid ev < length (goroutines w)")
  case False
  with b show ?thesis by (simp add: world_step_def)
next
  case True
  from b have ne: "0 < length (goroutines w)" by (simp add: bootstrap_inv_def)
  have reg: "0 < wg (session w)" if "unfinished_pass (goroutines w ! 0)"
    using t count_where_pos [OF ne, of registered] that unfinished_pass_registered
    by (simp add: trigger_inv_def)
  note nth = list_all_nth [OF _ True]
  have z: "0 < ev_tid ev \<or> goroutines w ! 0 = goroutines w ! ev_tid ev"
    by (cases "ev_tid ev") simp_all
  show ?thesis
  proof (cases "goroutines w ! ev_tid ev")
    case (Waiting g)
    show ?thesis
    proof (cases g)
      case (Wait_Select k)
      with Waiting b True ne reg z show ?thesis
        by (cases "goroutines w ! 0 = Pass_Exited")
           (auto simp: world_step_def bootstrap_inv_def Let_def nth_list_update nth_append
              list_all_update dest: list_all_nth split: if_splits option.splits)
    next
      case (Waiter_Close k)
      with Waiting b True ne reg nth z show ?thesis
        by (cases "goroutines w ! 0 = Pass_Exited")
           (auto simp: world_step_def bootstrap_inv_def Let_def nth_list_update nth_append
              list_all_update close_chan_def split: if_splits option.splits chan.splits)
    qed (use Waiting b True ne reg z in
         \<open>auto simp: world_step_def bootstrap_inv_def Let_def nth_list_update nth_append
            list_all_update split: if_splits option.splits\<close>)
  qed (use b True ne reg z in
       \<open>auto simp: world_step_def bootstrap_inv_def Let_def nth_list_update nth_append
            list_all_update split: if_splits option.splits sum.splits\<close>)
qed

lemma bootstrap_inv_run:
  "trigger_inv w \<Longrightarrow> bootstrap_inv w \<Longrightarrow> bootstrap_inv (run evs w)"
  unfolding run_def
  by (induction evs arbitrary: w) (simp_all add: bootstrap_inv_step trigger_inv_step)

lemma bootstrap_inv_start:
  assumes "list_all caller callers"
  shows "bootstrap_inv (start_world (s, [Pass_Probe]) callers)"
proof -
  have "list_all (\<lambda>g. (\<forall>k. g \<noteq> Waiting (Waiter_Close k)) \<and> g \<noteq> Waiting (Wait_Returned None))
          callers"
    using assms by (auto simp: list_all_iff dest: caller_cases)
  then show ?thesis by (simp add: bootstrap_inv_def start_world_def)
qed

lemma construct_low_space:
  assumes "validateLocalConfig c = None" and "Free diskInfo < FreeSpaceThreshold c"
  shows "\<exists>s. NewLocalBackupSession None (Inr diskInfo) c = Inr (s, [Pass_Probe])
            \<and> wg s = 1 \<and> isCleaningActive s"
  using assms by (simp add: NewLocalBackupSession_def Let_def)

lemma select_blocked:
  assumes "bootstrap_inv w" and "unfinished_pass (goroutines w ! 0)"
    and "goroutines w ! ev_tid ev = Waiting (Wait_Select k) \<and> ev_ctx_err ev = None"
  shows "world_step ev w = w"
proof -
  from assms(1,2) have "list_all (\<lambda>c. c = Open) (done_chans w)"
    by (auto simp: bootstrap_inv_def)
  then have "k < length (done_chans w) \<Longrightarrow> done_chans w ! k = Open"
    by (simp add: list_all_length)
  with assms(3) show ?thesis
    by (auto simp: world_step_def Let_def)
qed

text \<open>
  C4. For a valid configuration, a root directory that exists or can be created, and
  a first snapshot with \<open>free < freeSpaceThreshold\<close>, \<open>NewLocalBackupSession\<close>
  returns a session whose wait group counts one, whose \<open>isCleaningActive\<close> is set, and
  for which one cleanup pass has been started (goroutine 0 of the world). Then, in every
  world reached by any interleaving of that pass, of later calls on the session and of
  the passes they start: as long as the pass has not called \<open>wg.Done()\<close>, no call of
  \<open>WaitForCompletion\<close> has returned \<open>nil\<close>, and a call that is at its \<open>select\<close>
  with a context that is not done cannot move. (With a context that is done it returns
  the timeout error.)
\<close>

theorem construct_starts_cleanup_when_space_is_low:
  assumes "validateLocalConfig c = None"
    and "Free diskInfo < FreeSpaceThreshold c"
    and "list_all caller callers"
  shows "\<exists>s. NewLocalBackupSession None (Inr diskInfo) c = Inr (s, [Pass_Probe])
          \<and> wg s = 1 \<and> isCleaningActive s
          \<and> (\<forall>evs ev i k.
               unfinished_pass (goroutines (run evs (start_world (s, [Pass_Probe]) callers)) ! 0) \<longrightarrow>
                 (i < length (goroutines (run evs (start_world (s, [Pass_Probe]) callers))) \<longrightarrow>
                    goroutines (run evs (start_world (s, [Pass_Probe]) callers)) ! i \<noteq>
                      Waiting (Wait_Returned None))
               \<and> (goroutines (run evs (start_world (s, [Pass_Probe]) callers)) ! ev_tid ev =
                      Waiting (Wait_Select k) \<and> ev_ctx_err ev = None \<longrightarrow>
                    world_step ev (run evs (start_world (s, [Pass_Probe]) callers)) =
                      run evs (start_world (s, [Pass_Probe]) callers)))"
proof -
  from construct_low_space [OF assms(1,2)] obtain s where
    s: "NewLocalBackupSession None (Inr diskInfo) c = Inr (s, [Pass_Probe])"
      "wg s = 1" "isCleaningActive s"
    by blast
  have inv: "bootstrap_inv (run evs (start_world (s, [Pass_Probe]) callers))" for evs
    by (rule bootstrap_inv_run)
       (rule trigger_inv_start [OF s(1) assms(3)], rule bootstrap_inv_start [OF assms(3)])
  have ret: "goroutines (run evs (start_world (s, [Pass_Probe]) callers)) ! i \<noteq>
               Waiting (Wait_Returned None)"
    if "unfinished_pass (goroutines (run evs (start_world (s, [Pass_Probe]) callers)) ! 0)"
      and "i < length (goroutines (run evs (start_world (s, [Pass_Probe]) callers)))"
    for evs i
    using inv [of evs] that by (auto simp: bootstrap_inv_def list_all_length)
  from s ret select_blocked [OF inv] show ?thesis by blast
qed

theorem construct_starts_cleanup_when_space_is_low_witness:
  "validateLocalConfig example_config = None
   \<and> Free (example_usage 9) < FreeSpaceThreshold example_config
   \<and> list_all caller [Waiting Wait_Start]
   \<and> NewLocalBackupSession None (Inr (example_usage 9)) example_config =
       Inr (example_session\<lparr>isCleaningActive := True, wg := 1\<rparr>, [Pass_Probe])
   \<and> goroutines (run (map example_event [1, 2, 1, 0, 0])
        (start_world (example_session\<lparr>isCleaningActive := True, wg := 1\<rparr>, [Pass_Probe])
           [Waiting Wait_Start])) =
       [Pass_Idle, Waiting (Wait_Select 0), Waiting (Waiter_Wait 0)]
   \<and> goroutines (run (map example_event [1, 2, 1, 0, 0, 0, 0, 0, 2, 2, 1])
        (start_world (example_session\<lparr>isCleaningActive := True, wg := 1\<rparr>, [Pass_Probe])
           [Waiting Wait_Start])) =
       [Pass_Exited, Waiting (Wait_Returned None), Waiting Waiter_Exited]
   \<and> (\<exists>s. NewLocalBackupSession None (Inr (example_usage 9)) example_config =
             Inr (s, [Pass_Probe])
          \<and> wg s = 1 \<and> isCleaningActive s
          \<and> (\<forall>evs ev i k.
               unfinished_pass
                 (goroutines (run evs (start_world (s, [Pass_Probe]) [Waiting Wait_Start])) ! 0) \<longrightarrow>
                 (i < length
                        (goroutines (run evs (start_world (s, [Pass_Probe]) [Waiting Wait_Start]))) \<longrightarrow>
                    goroutines (run evs (start_world (s, [Pass_Probe]) [Waiting Wait_Start])) ! i \<noteq>
                      Waiting (Wait_Returned None))
               \<and> (goroutines (run evs (start_world (s, [Pass_Probe]) [Waiting Wait_Start])) !
                      ev_tid ev =
                      Waiting (Wait_Select k) \<and> ev_ctx_err ev = None \<longrightarrow>
                    world_step ev (run evs (start_world (s, [Pass_Probe]) [Waiting Wait_Start])) =
                      run evs (start_world (s, [Pass_Probe]) [Waiting Wait_Start]))))"
proof -
  have h1: "validateLocalConfig example_config = None"
    by (simp add: validateLocalConfig_def example_config_def)
  have h2: "Free (example_usage 9) < FreeSpaceThreshold example_config"
    by (simp add: example_usage_def example_config_def)
  have h3: "list_all caller [Waiting Wait_Start]"
    by simp
  have h4: "NewLocalBackupSession None (Inr (example_usage 9)) example_config =
       Inr (example_session\<lparr>isCleaningActive := True, wg := 1\<rparr>, [Pass_Probe])"
    by code_simp
  have h5: "goroutines (run (map example_event [1, 2, 1, 0, 0])
        (start_world (example_session\<lparr>isCleaningActive := True, wg := 1\<rparr>, [Pass_Probe])
           [Waiting Wait_Start])) =
       [Pass_Idle, Waiting (Wait_Select 0), Waiting (Waiter_Wait 0)]"
    by code_simp
  have h6: "goroutines (run (map example_event [1, 2, 1, 0, 0, 0, 0, 0, 2, 2, 1])
        (start_world (example_session\<lparr>isCleaningActive := True, wg := 1\<rparr>, [Pass_Probe])
           [Waiting Wait_Start])) =
       [Pass_Exited, Waiting (Wait_Returned None), Waiting Waiter_Exited]"
    by code_simp
  from construct_starts_cleanup_when_space_is_low [OF h1 h2 h3] h1 h2 h3 h4 h5 h6
  show ?thesis by blast
qed

section \<open>The remote variant\<close>

lemma s3_inv_step:
  assumes "s3_inv w"
  shows "s3_inv (s3_world_step ev w)"
proof (cases "s3_tid ev < length (s3_goroutines w)")
  case False
  with assms show ?thesis by (simp add: s3_world_step_def)
next
  case True
  note pos = count_where_pos [OF True, of s3_registered]
  show ?thesis
  proof (cases "s3_goroutines w ! s3_tid ev")
    case (S3Waiting g)
    with assms True show ?thesis
      by (cases g)
         (auto simp: s3_world_step_def s3_inv_def Let_def count_where_update'
            count_where_append count_where_Nil count_where_Cons
            split: if_splits option.splits sum.splits)
  qed (use assms True pos in
       \<open>auto simp: s3_world_step_def s3_inv_def Let_def count_where_update' Save_s3_def
            count_where_append count_where_Nil count_where_Cons
            split: if_splits option.splits sum.splits prod.splits\<close>)
qed

lemma s3_inv_run: "s3_inv w \<Longrightarrow> s3_inv (s3_run evs w)"
  unfolding s3_run_def by (induction evs arbitrary: w) (simp_all add: s3_inv_step)

lemma s3_caller_cases:
  "s3_caller g \<Longrightarrow> (\<exists>a b. g = S3Save_Call a b) \<or> g = S3Waiting Wait_Start"
  by (cases g rule: s3_caller.cases) simp_all

lemma s3_inv_start:
  assumes "s3_wg s = 0" and "list_all s3_caller callers"
  shows "s3_inv (s3_start_world s callers)"
proof -
  have "count_where s3_registered callers = 0"
    using assms(2) by (rule count_where_none) (auto dest: s3_caller_cases)
  with assms(1) show ?thesis by (simp add: s3_inv_def s3_start_world_def)
qed

lemma s3_step_put_irrelevant:
  "map_option (\<lambda>(s', cs', sent, g', new). (s', cs', g', new))
     (s3_step (ev\<lparr>s3_put := a\<rparr>) s cs g) =
   map_option (\<lambda>(s', cs', sent, g', new). (s', cs', g', new)) (s3_step ev s cs g)"
  by (cases g) (auto split: prod.splits)

lemma s3_visible_step:
  assumes "s3_visible w = s3_visible w'"
  shows "s3_visible (s3_world_step (ev\<lparr>s3_put := a\<rparr>) w) = s3_visible (s3_world_step ev w')"
proof -
  from assms have eq: "s3_session w = s3_session w'" "s3_goroutines w = s3_goroutines w'"
    "s3_done_chans w = s3_done_chans w'"
    by (simp_all add: s3_visible_def)
  show ?thesis
    using s3_step_put_irrelevant [of a ev "s3_session w'" "s3_done_chans w'"
        "s3_goroutines w' ! s3_tid ev"]
    by (cases "s3_step (ev\<lparr>s3_put := a\<rparr>) (s3_session w') (s3_done_chans w')
                 (s3_goroutines w' ! s3_tid ev)";
        cases "s3_step ev (s3_session w') (s3_done_chans w') (s3_goroutines w' ! s3_tid ev)")
       (auto simp: s3_world_step_def s3_visible_def eq)
qed

lemma s3_visible_run:
  "s3_visible w = s3_visible w' \<Longrightarrow>
   s3_visible (s3_run (map (\<lambda>ev. ev\<lparr>s3_put := a\<rparr>) evs) w) = s3_visible (s3_run evs w')"
  unfolding s3_run_def
  by (induction evs arbitrary: w w') (simp_all add: s3_visible_step)

lemma s3_wait_alone_returns:
  assumes "s3_wg (s3_session w) = 0" and "s3_ctx_err ev = None"
  shows "s3_goroutines
           (s3_run (s3_wait_alone ev (length (s3_goroutines w)))
              (w\<lparr>s3_goroutines := s3_goroutines w @ [S3Waiting Wait_Start]\<rparr>)) !
           length (s3_goroutines w) = S3Waiting (Wait_Returned None)"
  using assms
  by (simp add: s3_run_def s3_wait_alone_def s3_world_step_def nth_append close_chan_def)

text \<open>
  C8. With non-empty paths and a source that \<open>os.Stat\<close> finds to be a regular file,
  \<open>Save\<close> of the remote variant returns \<open>nil\<close> with the wait group raised by one and
  the upload goroutine started at its first program point: nothing of the transfer has
  run. The upload goroutine moves on to its \<open>wg.Done()\<close> with the session as it was,
  whatever \<open>uploadFile\<close> returned. In every interleaving on a fresh remote session, what the callers can see (the
  session, the values returned by \<open>Save\<close> and \<open>WaitForCompletion\<close>) is what they
  would see if every \<open>PutObject\<close> had succeeded: a failed upload is returned to nobody.
  And in any world reached in which no upload is left that has not called \<open>wg.Done()\<close>,
  whatever the uploads' results were, a call of \<open>WaitForCompletion\<close> whose context is
  not done returns \<open>nil\<close>.
\<close>

theorem s3_save_returns_before_transfer:
  assumes "localFilePath \<noteq> []" and "relativePath \<noteq> []"
    and "os_Stat (stat_fails sys) fs localFilePath = Inr fileInfo" and "regular fileInfo"
    and "s3_wg s0 = 0" and "list_all s3_caller callers"
  shows "Save_s3 sys fs localFilePath relativePath s =
           (None, s\<lparr>s3_wg := s3_wg s + 1\<rparr>,
            [Upload_Run localFilePath
               (filepath_ToSlash sys (filepath_Join sys (Prefix (s3_config s)) relativePath))
               (of_nat (length (content fileInfo)))])
       \<and> (\<exists>sent. s3_step ev s cs (Upload_Run filePath key sz) =
                    Some (s, cs, sent, Upload_Done, []))
       \<and> s3_visible (s3_run evs (s3_start_world s0 callers)) =
           s3_visible (s3_run (map (\<lambda>ev. ev\<lparr>s3_put := None\<rparr>) evs) (s3_start_world s0 callers))
       \<and> (list_all (\<lambda>g. \<not> s3_registered g) (s3_goroutines (s3_run evs (s3_start_world s0 callers)))
            \<and> s3_ctx_err ev = None \<longrightarrow>
          s3_goroutines
            (s3_run (s3_wait_alone ev (length (s3_goroutines (s3_run evs (s3_start_world s0 callers)))))
               ((s3_run evs (s3_start_world s0 callers))
                  \<lparr>s3_goroutines := s3_goroutines (s3_run evs (s3_start_world s0 callers)) @
                                      [S3Waiting Wait_Start]\<rparr>)) !
            length (s3_goroutines (s3_run evs (s3_start_world s0 callers))) =
          S3Waiting (Wait_Returned None))"
proof -
  let ?w = "s3_run evs (s3_start_world s0 callers)"
  have a: "Save_s3 sys fs localFilePath relativePath s =
           (None, s\<lparr>s3_wg := s3_wg s + 1\<rparr>,
            [Upload_Run localFilePath
               (filepath_ToSlash sys (filepath_Join sys (Prefix (s3_config s)) relativePath))
               (of_nat (length (content fileInfo)))])"
    using assms(1-4) by (simp add: Save_s3_def Let_def)
  have b: "s3_visible ?w =
           s3_visible (s3_run (map (\<lambda>ev. ev\<lparr>s3_put := None\<rparr>) evs) (s3_start_world s0 callers))"
    by (rule s3_visible_run [symmetric]) simp
  have d: "\<exists>sent. s3_step ev s cs (Upload_Run filePath key sz) =
                    Some (s, cs, sent, Upload_Done, [])"
    by (simp split: prod.splits)
  have "s3_inv ?w"
    by (rule s3_inv_run) (rule s3_inv_start [OF assms(5,6)])
  then have "s3_wg (s3_session ?w) = 0" if "list_all (\<lambda>g. \<not> s3_registered g) (s3_goroutines ?w)"
    using count_where_none [OF that, of s3_registered] by (simp add: s3_inv_def)
  with s3_wait_alone_returns [of ?w ev] a b d show ?thesis by blast
qed

theorem s3_save_returns_before_transfer_witness:
  "os_Stat (stat_fails example_syscalls) example_fs ''/tmp/a'' =
     Inr \<lparr>regular = True, mode = 420, content = [1, 2, 3]\<rparr>
   \<and> s3_wg example_s3_session = 0
   \<and> list_all s3_caller [S3Save_Call ''/tmp/a'' ''test.dat'']
   \<and> Save_s3 example_syscalls example_fs ''/tmp/a'' ''test.dat'' example_s3_session =
       (None, example_s3_session\<lparr>s3_wg := 1\<rparr>, [Upload_Run ''/tmp/a'' ''backup/test.dat'' 3])
   \<and> s3_goroutines (s3_run (map example_s3_event [0, 1, 1])
        (s3_start_world example_s3_session [S3Save_Call ''/tmp/a'' ''test.dat''])) =
       [S3Save_Returned None, Upload_Exited]
   \<and> s3_goroutines
        (s3_run (s3_wait_alone (example_s3_event 0) 2)
           ((s3_run (map example_s3_event [0, 1, 1])
               (s3_start_world example_s3_session [S3Save_Call ''/tmp/a'' ''test.dat'']))
              \<lparr>s3_goroutines := [S3Save_Returned None, Upload_Exited, S3Waiting Wait_Start]\<rparr>)) ! 2 =
       S3Waiting (Wait_Returned None)"
proof -
  have h3: "os_Stat (stat_fails example_syscalls) example_fs ''/tmp/a'' =
              Inr \<lparr>regular = True, mode = 420, content = [1, 2, 3]\<rparr>"
    by (simp add: os_Stat_def example_syscalls_def example_fs_def)
  have h5: "s3_wg example_s3_session = 0"
    by (simp add: example_s3_session_def)
  have h6: "list_all s3_caller [S3Save_Call ''/tmp/a'' ''test.dat'']"
    by simp
  have g: "s3_goroutines (s3_run (map example_s3_event [0, 1, 1])
        (s3_start_world example_s3_session [S3Save_Call ''/tmp/a'' ''test.dat''])) =
       [S3Save_Returned None, Upload_Exited]"
    by code_simp
  have e: "s3_ctx_err (example_s3_event 0) = None"
    by (simp add: example_s3_event_def)
  have n: "''/tmp/a'' \<noteq> []" "''test.dat'' \<noteq> []" "regular \<lparr>regular = True, mode = 420, content = [1, 2, 3]\<rparr>"
    by simp_all
  note t = s3_save_returns_before_transfer
         [where sys = example_syscalls and fs = example_fs and localFilePath = "''/tmp/a''"
            and relativePath = "''test.dat''" and s = example_s3_session
            and ?s0.0 = example_s3_session
            and callers = "[S3Save_Call ''/tmp/a'' ''test.dat'']"
            and evs = "map example_s3_event [0, 1, 1]" and ev = "example_s3_event 0",
          OF n(1) n(2) h3 n(3) h5 h6]
  have c1: "Save_s3 example_syscalls example_fs ''/tmp/a'' ''test.dat'' example_s3_session =
       (None, example_s3_session\<lparr>s3_wg := 1\<rparr>, [Upload_Run ''/tmp/a'' ''backup/test.dat'' 3])"
    using t [THEN conjunct1] by (simp add: example_syscalls_def example_s3_session_def)
  have c3: "s3_goroutines
        (s3_run (s3_wait_alone (example_s3_event 0) 2)
           ((s3_run (map example_s3_event [0, 1, 1])
               (s3_start_world example_s3_session [S3Save_Call ''/tmp/a'' ''test.dat'']))
              \<lparr>s3_goroutines := [S3Save_Returned None, Upload_Exited, S3Waiting Wait_Start]\<rparr>)) ! 2 =
       S3Waiting (Wait_Returned None)"
  proof -
    have pre: "list_all (\<lambda>g. \<not> s3_registered g) [S3Save_Returned None, Upload_Exited]
                 \<and> s3_ctx_err (example_s3_event 0) = None"
      using e by simp
    from t [THEN conjunct2, THEN conjunct2, THEN conjunct2, unfolded g, THEN mp, OF pre]
    show ?thesis by (simp add: numeral_2_eq_2)
  qed
  from h3 h5 h6 c1 g c3 show ?thesis by blast
qed

end
